(* ===== verification/Prelude.thy ===== *)
theory Prelude
  imports Main
begin

text \<open>
  Shared vocabulary of the development: the names of the model's types, the
  exception-and-state monad in which Go code that may panic is written, and the
  generic lemmas on it and on store updates that the component theories use.
  Nothing here is specific to package \<open>rg\<close>.
\<close>

named_theorems exn_simps \<open>equations of the exception-and-state monad\<close>
named_theorems go_simps \<open>characteristic equations of the Go runtime model\<close>

type_synonym var = string

text \<open>
  A computation that threads a state \<open>'s\<close> and either returns a value \<open>Inr a\<close> or
  aborts abnormally with a payload \<open>Inl e\<close>. The state is returned in both cases:
  effects that happened before a panic stay visible.
\<close>

type_synonym ('e, 's, 'a) exn = "'s \<Rightarrow> ('e + 'a) \<times> 's"

definition exn_return :: "'a \<Rightarrow> ('e, 's, 'a) exn" where
  "exn_return a s = (Inr a, s)"

definition exn_throw :: "'e \<Rightarrow> ('e, 's, 'a) exn" where
  "exn_throw e s = (Inl e, s)"

definition exn_bind :: "('e, 's, 'a) exn \<Rightarrow> ('a \<Rightarrow> ('e, 's, 'b) exn) \<Rightarrow> ('e, 's, 'b) exn" where
  "exn_bind m f s = (case m s of (Inl e, s') \<Rightarrow> (Inl e, s') | (Inr a, s') \<Rightarrow> f a s')"

definition exn_modify :: "('s \<Rightarrow> 's) \<Rightarrow> ('e, 's, unit) exn" where
  "exn_modify g s = (Inr (), g s)"

definition exn_get :: "('s \<Rightarrow> 'a) \<Rightarrow> ('e, 's, 'a) exn" where
  "exn_get g s = (Inr (g s), s)"

subsection \<open>Simultaneous assignment to a list of variables\<close>

text \<open>
  \<open>upds m xs vs\<close> writes \<open>vs\<close> into the cells \<open>xs\<close> from left to right, as Go's
  tuple assignment \<open>x1, ..., xn = v1, ..., vn\<close> does once all right-hand sides are
  evaluated.
\<close>

definition upds :: "('k \<Rightarrow> 'v) \<Rightarrow> 'k list \<Rightarrow> 'v list \<Rightarrow> ('k \<Rightarrow> 'v)" where
  "upds m xs vs = fold (\<lambda>(x, v) m. m(x := v)) (zip xs vs) m"

subsection \<open>Laws of the monad\<close>

lemma exn_return_simp [exn_simps, simp]: "exn_return a s = (Inr a, s)"
  by (simp add: exn_return_def)

lemma exn_throw_simp [exn_simps, simp]: "exn_throw e s = (Inl e, s)"
  by (simp add: exn_throw_def)

lemma exn_modify_simp [exn_simps, simp]: "exn_modify g s = (Inr (), g s)"
  by (simp add: exn_modify_def)

lemma exn_get_simp [exn_simps, simp]: "exn_get g s = (Inr (g s), s)"
  by (simp add: exn_get_def)

lemma exn_bind_Inr [exn_simps, simp]: "m s = (Inr a, s') \<Longrightarrow> exn_bind m f s = f a s'"
  by (simp add: exn_bind_def)

lemma exn_bind_Inl [exn_simps, simp]: "m s = (Inl e, s') \<Longrightarrow> exn_bind m f s = (Inl e, s')"
  by (simp add: exn_bind_def)

lemma exn_bind_return [exn_simps, simp]: "exn_bind (exn_return a) f = f a"
  by (simp add: exn_bind_def fun_eq_iff)

lemma exn_bind_throw [exn_simps, simp]: "exn_bind (exn_throw e) f = exn_throw e"
  by (simp add: exn_bind_def fun_eq_iff)

lemma exn_bind_modify [exn_simps, simp]: "exn_bind (exn_modify g) f s = f () (g s)"
  by (simp add: exn_bind_def)

lemma exn_bind_assoc [exn_simps]:
  "exn_bind (exn_bind m f) g = exn_bind m (\<lambda>a. exn_bind (f a) g)"
  by (simp add: exn_bind_def fun_eq_iff split: prod.splits sum.splits)

lemma exn_bind_right_id [exn_simps]: "exn_bind m exn_return = m"
  by (simp add: exn_bind_def fun_eq_iff split: prod.splits sum.splits)

text \<open>Splitting a bind by the outcome of its first computation.\<close>

lemma exn_bind_cases:
  "exn_bind m f s = (case m s of (Inl e, s') \<Rightarrow> (Inl e, s') | (Inr a, s') \<Rightarrow> f a s')"
  by (simp add: exn_bind_def)

subsection \<open>Laws of simultaneous assignment\<close>

lemma upds_Nil [simp]: "upds m [] vs = m"
  by (simp add: upds_def)

lemma upds_Cons_Cons [simp]: "upds m (x # xs) (v # vs) = upds (m(x := v)) xs vs"
  by (simp add: upds_def)

lemma upds_no_values [simp]: "upds m xs [] = m"
  by (simp add: upds_def)

lemma upds_other [simp]: "y \<notin> set xs \<Longrightarrow> upds m xs vs y = m y"
proof (induction xs arbitrary: m vs)
  case Nil
  then show ?case by simp
next
  case (Cons x xs)
  then show ?case by (cases vs) simp_all
qed

lemma upds_distinct_nth:
  "distinct xs \<Longrightarrow> length xs = length vs \<Longrightarrow> i < length xs \<Longrightarrow> upds m xs vs (xs ! i) = vs ! i"
proof (induction xs arbitrary: m vs i)
  case Nil
  then show ?case by simp
next
  case (Cons x xs)
  then obtain v vs' where vs: "vs = v # vs'" by (cases vs) auto
  show ?case
  proof (cases i)
    case 0
    with Cons.prems vs show ?thesis by simp
  next
    case (Suc j)
    with Cons.prems vs show ?thesis by (simp add: Cons.IH)
  qed
qed

end
