(* ===== verification/Go_Values.thy ===== *)
theory Go_Values
  imports Prelude "HOL-Library.Word"
begin

text \<open>
  The Go values that flow through package \<open>rg\<close>: panic payloads (\<open>any\<close>), error
  values (\<open>error\<close>) and execution contexts (\<open>context.Context\<close>). The package only
  passes them along; what it observes of them is whether a payload is an \<open>error\<close>
  (the type assertion \<open>r.(error)\<close>), the message \<open>Error()\<close> of an error, and the
  \<open>%v\<close> rendering of a payload that \<open>fmt.Errorf\<close> uses. Those three are modelled
  here from the Go standard library (\<open>errors\<close>, \<open>fmt\<close>, \<open>runtime\<close>); Go's
  \<open>int\<close> is 64 bits wide, so an integer payload is a \<open>64 word\<close>.
\<close>

datatype gctx =
    CtxBackground
  | CtxTODO
  | CtxWithCancel gctx
  | CtxWithValue gctx string string

text \<open>
  Error values: \<open>*errors.errorString\<close> (what \<open>errors.New\<close> and \<open>fmt.Errorf\<close>
  without \<open>%w\<close> return), a \<open>runtime.Error\<close> raised by the runtime (a nil
  dereference), and \<open>*runtime.PanicNilError\<close>, the payload Go 1.21 and later
  substitute for \<open>panic(nil)\<close>.
\<close>

datatype gerror =
    ErrString string
  | ErrRuntime string
  | ErrPanicNil

datatype gval =
    VNil
  | VInt "64 word"
  | VStr string
  | VBool bool
  | VErr gerror

text \<open>A Go variable of interface type \<open>error\<close>: \<open>None\<close> is \<open>nil\<close>.\<close>

type_synonym goerror = "gerror option"

fun error_msg :: "gerror \<Rightarrow> string" where
  "error_msg (ErrString s) = s"
| "error_msg (ErrRuntime s) = ''runtime error: '' @ s"
| "error_msg ErrPanicNil = ''panic called with nil argument''"

definition nil_deref :: gerror where
  "nil_deref = ErrRuntime ''invalid memory address or nil pointer dereference''"

definition errors_New :: "string \<Rightarrow> gerror" where
  "errors_New s = ErrString s"

text \<open>The value of an \<open>error\<close> variable seen as an \<open>any\<close>.\<close>

fun error_val :: "goerror \<Rightarrow> gval" where
  "error_val None = VNil"
| "error_val (Some e) = VErr e"

subsection \<open>Decimal rendering of integers (\<open>strconv\<close>, used by \<open>%v\<close>)\<close>

definition digit_char :: "nat \<Rightarrow> char" where
  "digit_char d = char_of (48 + d)"

fun nat_digits :: "nat \<Rightarrow> string" where
  "nat_digits n = (if n < 10 then [digit_char n] else nat_digits (n div 10) @ [digit_char (n mod 10)])"

declare nat_digits.simps [simp del]

definition show_int :: "int \<Rightarrow> string" where
  "show_int i = (if i < 0 then CHR ''-'' # nat_digits (nat (- i)) else nat_digits (nat i))"

text \<open>\<open>%v\<close> of a payload: the \<open>Error()\<close> message for an error, the decimal for an
  \<open>int\<close>, the text itself for a \<open>string\<close>, \<open>true\<close>/\<open>false\<close> for a \<open>bool\<close> and
  \<open><nil>\<close> for \<open>nil\<close>.\<close>

fun fmt_v :: "gval \<Rightarrow> string" where
  "fmt_v VNil = ''<nil>''"
| "fmt_v (VInt w) = show_int (sint w)"
| "fmt_v (VStr s) = s"
| "fmt_v (VBool b) = (if b then ''true'' else ''false'')"
| "fmt_v (VErr e) = error_msg e"

text \<open>\<open>fmt.Errorf(prefix + "%v", r)\<close>: a fresh \<open>errorString\<close>.\<close>

definition fmt_Errorf_v :: "string \<Rightarrow> gval \<Rightarrow> gerror" where
  "fmt_Errorf_v prefix r = ErrString (prefix @ fmt_v r)"

end
