(* ===== verification/Hooks.thy ===== *)
theory Hooks
  imports Go_Values
begin

text \<open>
  The package-level observer hooks of \<open>src/guard.go\<close> (lines 8--13):
  \<open>OnGuard func(r any)\<close> and \<open>OnGuardWithContext func(ctx context.Context, r any)\<close>.
  Both are mutable variables of the package, \<open>nil\<close> until a program assigns them.
  A hook is an arbitrary function of the client; what \<open>Guard\<close> depends on is whether
  it returns or panics, so a hook is modelled as the payload of the panic it raises
  (\<open>Some q\<close>) or \<open>None\<close> when it returns. Every call of a hook is recorded as an
  \<open>event\<close>, so that the order and the arguments of the calls can be stated.
\<close>

type_synonym hook = "gval \<Rightarrow> gval option"
type_synonym ctx_hook = "gctx \<Rightarrow> gval \<Rightarrow> gval option"

record hooks =
  OnGuard :: "hook option"
  OnGuardWithContext :: "ctx_hook option"

text \<open>The zero values of the two package variables.\<close>

definition no_hooks :: hooks where
  "no_hooks = \<lparr>OnGuard = None, OnGuardWithContext = None\<rparr>"

text \<open>Hooks that return for every argument (they may still be set).\<close>

definition hooks_return :: "hooks \<Rightarrow> bool" where
  "hooks_return h \<longleftrightarrow>
     (\<forall>v. case OnGuard h of None \<Rightarrow> True | Some f \<Rightarrow> f v = None) \<and>
     (\<forall>c v. case OnGuardWithContext h of None \<Rightarrow> True | Some g \<Rightarrow> g c v = None)"

datatype event =
    EvOnGuard gval
  | EvOnGuardWithContext gctx gval

end
