(* ===== verification/Go_State.thy ===== *)
theory Go_State
  imports Hooks
begin

text \<open>
  The state of a goroutine running code of package \<open>rg\<close>, and the Go runtime
  primitives the package relies on: \<open>panic\<close>, \<open>recover\<close>, and a write through a
  pointer. Variables that a guarded function writes through \<open>err *error\<close> are cells
  of \<open>store\<close>, addressed by name (every closure of the test programs captures its
  variables by reference, so one store suffices); \<open>globals\<close> holds the package
  variables \<open>OnGuard\<close> and \<open>OnGuardWithContext\<close>; \<open>trace\<close> records hook calls;
  \<open>panicking\<close> is the panic in flight while deferred calls run (the runtime's
  \<open>g._panic\<close>), \<open>None\<close> during normal execution or once it has been recovered.
  \<open>panicnil\<close> is the runtime setting \<open>GODEBUG=panicnil=1\<close>: without it (the
  default of Go 1.21 and later) \<open>panic(nil)\<close> raises a \<open>*runtime.PanicNilError\<close>;
  with it, or before Go 1.21, the payload stays \<open>nil\<close>, and \<open>recover()\<close> then
  stops the panic but returns \<open>nil\<close>.
\<close>

record gstate =
  store :: "var \<Rightarrow> gval"
  globals :: hooks
  trace :: "event list"
  panicking :: "gval option"
  panicnil :: bool

text \<open>Go code that may panic: \<open>Inl p\<close> is a panic with payload \<open>p\<close>.\<close>

type_synonym 'a go = "(gval, gstate, 'a) exn"

text \<open>\<open>runtime.gopanic\<close>: the payload actually raised by \<open>panic(v)\<close>.\<close>

definition gopanic :: "bool \<Rightarrow> gval \<Rightarrow> gval" where
  "gopanic keep_nil v = (if v = VNil \<and> \<not> keep_nil then VErr ErrPanicNil else v)"

definition go_panic :: "gval \<Rightarrow> 'a go" where
  "go_panic v s = exn_throw (gopanic (panicnil s) v) s"

text \<open>
  \<open>recover()\<close>: it stops the panic in flight and returns its payload only when
  called directly by a deferred function (\<open>direct\<close>); otherwise, and when nothing
  is panicking, it returns \<open>nil\<close> and changes nothing. A \<open>nil\<close> payload is
  stopped too, and returned as \<open>nil\<close>.
\<close>

definition recover :: "bool \<Rightarrow> gval go" where
  "recover direct s =
     (if direct then (Inr (case panicking s of None \<Rightarrow> VNil | Some p \<Rightarrow> p), s\<lparr>panicking := None\<rparr>)
      else (Inr VNil, s))"

text \<open>\<open>*p = v\<close>: a nil pointer \<open>p\<close> is dereferenced and the runtime panics.\<close>

definition store_ptr :: "var option \<Rightarrow> gval \<Rightarrow> unit go" where
  "store_ptr p v s =
     (case p of None \<Rightarrow> go_panic (VErr nil_deref) s
      | Some x \<Rightarrow> (Inr (), s\<lparr>store := (store s)(x := v)\<rparr>))"

lemma gopanic_not_nil [simp]: "gopanic False v \<noteq> VNil"
  by (simp add: gopanic_def)

lemma gopanic_non_nil [simp]: "v \<noteq> VNil \<Longrightarrow> gopanic keep_nil v = v"
  by (simp add: gopanic_def)

lemma gopanic_nil [simp]: "gopanic keep_nil VNil = (if keep_nil then VNil else VErr ErrPanicNil)"
  by (simp add: gopanic_def)

lemma go_panic_simp [go_simps, simp]: "go_panic v s = (Inl (gopanic (panicnil s) v), s)"
  by (simp add: go_panic_def)

lemma recover_direct [go_simps, simp]:
  "panicking s = Some p \<Longrightarrow> recover True s = (Inr p, s\<lparr>panicking := None\<rparr>)"
  by (simp add: recover_def)

lemma recover_indirect [go_simps, simp]: "recover False s = (Inr VNil, s)"
  by (simp add: recover_def)

lemma recover_idle [go_simps, simp]: "panicking s = None \<Longrightarrow> recover direct s = (Inr VNil, s)"
  by (simp add: recover_def)

lemma store_ptr_nil [go_simps, simp]: "store_ptr None v s = (Inl (VErr nil_deref), s)"
  by (simp add: store_ptr_def)

lemma store_ptr_Some [go_simps, simp]:
  "store_ptr (Some x) v s = (Inr (), s\<lparr>store := (store s)(x := v)\<rparr>)"
  by (simp add: store_ptr_def)

end
