(* ===== verification/Options.thy ===== *)
theory Options
  imports Go_State
begin

text \<open>
  The functional options of \<open>Guard\<close> (\<open>src/guard.go\<close>, lines 15--27 and the
  option loop of lines 31--39). \<open>options\<close> is the private struct; an \<open>Option\<close> is a
  \<open>func(*options)\<close>. Outside the package the only \<open>Option\<close> values are those
  \<open>WithContext\<close> returns and \<open>nil\<close>, so the datatype has a constructor for the
  nil function and one for a closure. A \<open>context.Context\<close> is an interface: the
  field holds \<open>None\<close> for \<open>nil\<close>.
\<close>

record options =
  ctx :: "gctx option"

datatype Option = NilOption | OptFunc "options \<Rightarrow> options"

definition WithContext :: "gctx option \<Rightarrow> Option" where
  "WithContext c = OptFunc (\<lambda>opts. opts\<lparr>ctx := c\<rparr>)"

definition empty_options :: options where
  "empty_options = \<lparr>ctx = None\<rparr>"

text \<open>
  \<open>for _, opt := range opts { opt(&_opts) }\<close>: calling a nil \<open>Option\<close> is a nil
  dereference, a runtime panic raised from inside \<open>Guard\<close>.
\<close>

fun apply_options :: "Option list \<Rightarrow> options \<Rightarrow> options go" where
  "apply_options [] opts = exn_return opts"
| "apply_options (NilOption # os) opts = go_panic (VErr nil_deref)"
| "apply_options (OptFunc f # os) opts = apply_options os (f opts)"

text \<open>\<open>ctx := _opts.ctx; if ctx == nil { ctx = context.TODO() }\<close>\<close>

definition resolve_ctx :: "options \<Rightarrow> gctx" where
  "resolve_ctx opts = (case ctx opts of None \<Rightarrow> CtxTODO | Some c \<Rightarrow> c)"

text \<open>
  What the loop computes when it does not panic: the option functions applied in
  order, each overwriting what the previous ones set.
\<close>

fun run_options :: "Option list \<Rightarrow> options \<Rightarrow> options" where
  "run_options [] opts = opts"
| "run_options (NilOption # os) opts = run_options os opts"
| "run_options (OptFunc f # os) opts = run_options os (f opts)"

lemma apply_options_state:
  "apply_options os opts s = (r, s') \<Longrightarrow> s' = s"
  by (induction os opts rule: apply_options.induct) auto

lemma apply_options_nil_option:
  "NilOption \<in> set os \<Longrightarrow> apply_options os opts s = (Inl (VErr nil_deref), s)"
  by (induction os opts rule: apply_options.induct) auto

lemma apply_options_no_nil:
  "NilOption \<notin> set os \<Longrightarrow> apply_options os opts s = (Inr (run_options os opts), s)"
  by (induction os opts rule: apply_options.induct) auto

lemma run_options_WithContext:
  "run_options (map WithContext cs) opts = (if cs = [] then opts else opts\<lparr>ctx := last cs\<rparr>)"
  by (induction cs arbitrary: opts) (auto simp: WithContext_def)

lemma resolve_ctx_WithContext:
  "resolve_ctx (run_options (map WithContext cs) empty_options) =
     (if cs = [] then CtxTODO else case last cs of None \<Rightarrow> CtxTODO | Some c \<Rightarrow> c)"
  by (simp add: run_options_WithContext resolve_ctx_def empty_options_def)

end
