(* ===== verification/Guard.thy ===== *)
theory Guard
  imports Options
begin

text \<open>
  The recovery barrier \<open>Guard(err *error, opts ...Option)\<close> of \<open>src/guard.go\<close>
  (lines 29--54), written as a computation of the \<open>go\<close> monad: it resolves its
  options, calls \<open>recover()\<close>, and when a panic was in flight calls the two hooks
  and stores the converted error through \<open>err\<close>. The flag \<open>direct\<close> says whether
  \<open>Guard\<close> is itself the deferred function (\<open>defer Guard(&err)\<close>), the only way
  \<open>recover\<close> inside it can stop a panic.
\<close>

text \<open>\<open>if fn := OnGuard; fn != nil { fn(r) }\<close>\<close>

definition call_OnGuard :: "gval \<Rightarrow> unit go" where
  "call_OnGuard r s =
     (case OnGuard (globals s) of
        None \<Rightarrow> (Inr (), s)
      | Some fn \<Rightarrow>
          (let s' = s\<lparr>trace := trace s @ [EvOnGuard r]\<rparr>
           in case fn r of None \<Rightarrow> (Inr (), s') | Some q \<Rightarrow> go_panic q s'))"

text \<open>\<open>if fn := OnGuardWithContext; fn != nil { fn(ctx, r) }\<close>\<close>

definition call_OnGuardWithContext :: "gctx \<Rightarrow> gval \<Rightarrow> unit go" where
  "call_OnGuardWithContext c r s =
     (case OnGuardWithContext (globals s) of
        None \<Rightarrow> (Inr (), s)
      | Some fn \<Rightarrow>
          (let s' = s\<lparr>trace := trace s @ [EvOnGuardWithContext c r]\<rparr>
           in case fn c r of None \<Rightarrow> (Inr (), s') | Some q \<Rightarrow> go_panic q s'))"

text \<open>
  \<open>if re, ok := r.(error); ok { *err = re } else { *err = fmt.Errorf("panic: %v", r) }\<close>
\<close>

definition panic_to_error :: "gval \<Rightarrow> gerror" where
  "panic_to_error r = (case r of VErr re \<Rightarrow> re | _ \<Rightarrow> fmt_Errorf_v ''panic: '' r)"

text \<open>
  The body of \<open>if r := recover(); r != nil { ... }\<close> (lines 42--52): the hooks in
  the order of the source, then the store through \<open>err\<close>.
\<close>

definition absorb :: "var option \<Rightarrow> gctx \<Rightarrow> gval \<Rightarrow> unit go" where
  "absorb err c r =
     exn_bind (call_OnGuard r) (\<lambda>_.
       exn_bind (call_OnGuardWithContext c r) (\<lambda>_.
         store_ptr err (VErr (panic_to_error r))))"

definition Guard :: "var option \<Rightarrow> Option list \<Rightarrow> bool \<Rightarrow> unit go" where
  "Guard err opts direct =
     exn_bind (apply_options opts empty_options) (\<lambda>opts'.
       let c = resolve_ctx opts' in
       exn_bind (recover direct) (\<lambda>r.
         if r \<noteq> VNil then absorb err c r else exn_return ()))"

text \<open>The context \<open>Guard\<close> passes to \<open>OnGuardWithContext\<close> (lines 31--39).\<close>

definition guard_ctx :: "Option list \<Rightarrow> gctx" where
  "guard_ctx opts = resolve_ctx (run_options opts empty_options)"

subsection \<open>The hooks\<close>

lemma call_OnGuard_None [simp]:
  "OnGuard (globals s) = None \<Longrightarrow> call_OnGuard r s = (Inr (), s)"
  by (simp add: call_OnGuard_def)

lemma call_OnGuardWithContext_None [simp]:
  "OnGuardWithContext (globals s) = None \<Longrightarrow> call_OnGuardWithContext c r s = (Inr (), s)"
  by (simp add: call_OnGuardWithContext_def)

lemma call_OnGuard_frame:
  "call_OnGuard r s = (x, s') \<Longrightarrow>
     store s' = store s \<and> globals s' = globals s \<and> panicking s' = panicking s"
  by (auto simp: call_OnGuard_def Let_def split: option.splits)

lemma call_OnGuardWithContext_frame:
  "call_OnGuardWithContext c r s = (x, s') \<Longrightarrow>
     store s' = store s \<and> globals s' = globals s \<and> panicking s' = panicking s"
  by (auto simp: call_OnGuardWithContext_def Let_def split: option.splits)

subsection \<open>The conversion of a payload into an error\<close>

lemma panic_to_error_error [simp]: "panic_to_error (VErr e) = e"
  by (simp add: panic_to_error_def)

lemma error_msg_panic_to_error:
  "error_msg (panic_to_error r) =
     (case r of VErr e \<Rightarrow> error_msg e | _ \<Rightarrow> ''panic: '' @ fmt_v r)"
  by (cases r) (simp_all add: panic_to_error_def fmt_Errorf_v_def)

subsection \<open>The branches of \<open>Guard\<close>\<close>

lemma Guard_nil_option:
  "NilOption \<in> set opts \<Longrightarrow> Guard err opts direct s = (Inl (VErr nil_deref), s)"
  by (simp add: Guard_def apply_options_nil_option)

lemma Guard_resolved:
  "NilOption \<notin> set opts \<Longrightarrow>
   Guard err opts direct s =
     (case recover direct s of
        (Inr r, s') \<Rightarrow> if r \<noteq> VNil then absorb err (guard_ctx opts) r s' else (Inr (), s')
      | (Inl p, s') \<Rightarrow> (Inl p, s'))"
  by (simp add: Guard_def apply_options_no_nil guard_ctx_def exn_bind_cases
           split: prod.splits sum.splits)

lemma Guard_idle:
  "NilOption \<notin> set opts \<Longrightarrow> \<not> direct \<or> panicking s = None \<Longrightarrow> Guard err opts direct s = (Inr (), s)"
  by (cases direct) (auto simp: Guard_resolved)

lemma Guard_recovers:
  "NilOption \<notin> set opts \<Longrightarrow> panicking s = Some r \<Longrightarrow> r \<noteq> VNil \<Longrightarrow>
   Guard err opts True s = absorb err (guard_ctx opts) r (s\<lparr>panicking := None\<rparr>)"
  by (simp add: Guard_resolved)

text \<open>A \<open>nil\<close> payload is stopped by \<open>recover()\<close>, but \<open>r != nil\<close> fails.\<close>

lemma Guard_recovers_nil:
  "NilOption \<notin> set opts \<Longrightarrow> panicking s = Some VNil \<Longrightarrow>
   Guard err opts True s = (Inr (), s\<lparr>panicking := None\<rparr>)"
  by (simp add: Guard_resolved)

lemma absorb_no_hooks:
  "OnGuard (globals s) = None \<Longrightarrow> OnGuardWithContext (globals s) = None \<Longrightarrow>
   absorb (Some x) c r s = (Inr (), s\<lparr>store := (store s)(x := VErr (panic_to_error r))\<rparr>)"
  by (simp add: absorb_def)

lemma absorb_hooks_return:
  "OnGuard (globals s) = Some f \<Longrightarrow> OnGuardWithContext (globals s) = Some g \<Longrightarrow>
   f r = None \<Longrightarrow> g c r = None \<Longrightarrow>
   absorb (Some x) c r s =
     (Inr (), s\<lparr>trace := trace s @ [EvOnGuard r, EvOnGuardWithContext c r],
                store := (store s)(x := VErr (panic_to_error r))\<rparr>)"
  by (simp add: absorb_def call_OnGuard_def call_OnGuardWithContext_def)

lemma absorb_OnGuard_panics:
  "OnGuard (globals s) = Some f \<Longrightarrow> f r = Some q \<Longrightarrow>
   absorb err c r s = (Inl (gopanic (panicnil s) q), s\<lparr>trace := trace s @ [EvOnGuard r]\<rparr>)"
  by (simp add: absorb_def call_OnGuard_def)

lemma absorb_OnGuardWithContext_panics:
  "OnGuard (globals s) = None \<Longrightarrow> OnGuardWithContext (globals s) = Some g \<Longrightarrow> g c r = Some q \<Longrightarrow>
   absorb err c r s = (Inl (gopanic (panicnil s) q), s\<lparr>trace := trace s @ [EvOnGuardWithContext c r]\<rparr>)"
  by (simp add: absorb_def call_OnGuardWithContext_def)

lemma absorb_nil_pointer:
  "OnGuard (globals s) = None \<Longrightarrow> OnGuardWithContext (globals s) = None \<Longrightarrow>
   absorb None c r s = (Inl (VErr nil_deref), s)"
  by (simp add: absorb_def)

lemma absorb_store:
  "absorb err c r s = (x, s') \<Longrightarrow>
     store s' = store s \<or> (\<exists>v. err = Some v \<and> store s' = (store s)(v := VErr (panic_to_error r)))"
  by (auto simp: absorb_def exn_bind_cases store_ptr_def
           dest!: call_OnGuard_frame call_OnGuardWithContext_frame
           split: prod.splits sum.splits option.splits)

text \<open>
  C15: after a call of \<open>Guard\<close>, exactly one of two things holds of the store:
  it is untouched, or the only cell changed is the one \<open>err\<close> points to, which
  holds the converted error of the panic that was in flight; the latter only when
  \<open>Guard\<close> was the deferred function itself.
\<close>

theorem Guard_exactly_one:
  assumes "Guard err opts direct s = (x, s')"
  shows "store s' = store s \<or>
     (\<exists>v r. err = Some v \<and> direct \<and> panicking s = Some r \<and> r \<noteq> VNil \<and>
            store s' = (store s)(v := VErr (panic_to_error r)))"
proof (cases "NilOption \<in> set opts")
  case True
  then show ?thesis using assms by (simp add: Guard_nil_option)
next
  case False
  show ?thesis
  proof (cases "direct \<and> panicking s \<noteq> None \<and> panicking s \<noteq> Some VNil")
    case True
    then obtain r where d: direct and r: "panicking s = Some r" and n: "r \<noteq> VNil" by auto
    with False assms have "absorb err (guard_ctx opts) r (s\<lparr>panicking := None\<rparr>) = (x, s')"
      by (simp add: Guard_recovers)
    from absorb_store [OF this] d r n show ?thesis by auto
  next
    case nn: False
    show ?thesis
    proof (cases "direct \<and> panicking s = Some VNil")
      case True
      with False assms show ?thesis by (auto simp: Guard_recovers_nil)
    next
      case False
      with nn \<open>NilOption \<notin> set opts\<close> assms show ?thesis by (auto simp: Guard_idle)
    qed
  qed
qed

theorem Guard_exactly_one_witness:
  "Guard (Some ''err'') [] True
     \<lparr>store = (\<lambda>_. VNil), globals = no_hooks, trace = [], panicking = Some (VStr ''boom''), panicnil = False\<rparr> =
     (Inr (), \<lparr>store = (\<lambda>_. VNil)(''err'' := VErr (ErrString ''panic: boom'')), globals = no_hooks,
              trace = [], panicking = None, panicnil = False\<rparr>) \<and>
   ((\<lambda>_. VNil)(''err'' := VErr (ErrString ''panic: boom'')) = (\<lambda>_. VNil) \<or>
    (\<exists>v r. Some ''err'' = Some v \<and> True \<and> Some (VStr ''boom'') = Some r \<and> r \<noteq> VNil \<and>
       (\<lambda>_. VNil)(''err'' := VErr (ErrString ''panic: boom'')) = (\<lambda>_. VNil)(v := VErr (panic_to_error r))))"
proof -
  let ?s = "\<lparr>store = (\<lambda>_. VNil), globals = no_hooks, trace = [], panicking = Some (VStr ''boom''), panicnil = False\<rparr>"
  let ?s' = "\<lparr>store = (\<lambda>_. VNil)(''err'' := VErr (ErrString ''panic: boom'')), globals = no_hooks,
              trace = [], panicking = None, panicnil = False\<rparr>"
  have g: "Guard (Some ''err'') [] True ?s = (Inr (), ?s')"
    by (simp add: Guard_def absorb_def no_hooks_def panic_to_error_def fmt_Errorf_v_def)
  show ?thesis using g Guard_exactly_one [OF g] by simp
qed

lemma call_hooks_return:
  assumes "hooks_return (globals s)"
  shows "\<exists>t. call_OnGuard v s = (Inr (), s\<lparr>trace := t\<rparr>)"
    and "\<exists>t. call_OnGuardWithContext c v s = (Inr (), s\<lparr>trace := t\<rparr>)"
  using assms
  by (auto simp: hooks_return_def call_OnGuard_def call_OnGuardWithContext_def Let_def
           intro: exI [of _ "trace s"] split: option.splits)

lemma absorb_returns:
  assumes "hooks_return (globals s)"
  shows "\<exists>s'. absorb (Some x) c v s = (Inr (), s') \<and> panicking s' = panicking s \<and> globals s' = globals s"
proof -
  obtain t1 where h1: "call_OnGuard v s = (Inr (), s\<lparr>trace := t1\<rparr>)"
    using call_hooks_return(1) [OF assms] by blast
  obtain t2 where h2: "call_OnGuardWithContext c v (s\<lparr>trace := t1\<rparr>) = (Inr (), s\<lparr>trace := t2\<rparr>)"
    using call_hooks_return(2) [of "s\<lparr>trace := t1\<rparr>"] assms by auto
  show ?thesis
    by (simp add: absorb_def h1 h2 store_ptr_def)
qed

text \<open>
  C14: the context \<open>Guard\<close> hands to \<open>OnGuardWithContext\<close> is the one set by the
  last \<open>WithContext\<close> option, and \<open>context.TODO()\<close> when there is none or the last
  one sets \<open>nil\<close>.
\<close>

theorem guard_ctx_last_write_wins:
  "guard_ctx (map WithContext cs) =
     (if cs = [] then CtxTODO else case last cs of None \<Rightarrow> CtxTODO | Some c \<Rightarrow> c)"
  by (simp add: guard_ctx_def resolve_ctx_WithContext)

end
