(* ===== verification/Must.thy ===== *)
theory Must
  imports Go_State
begin

text \<open>
  The assert-or-propagate family of \<open>src/guard.go\<close> (lines 56--118):
  \<open>Must0(err)\<close>, \<open>Must[T](v, err)\<close> and \<open>Must2\<close> to \<open>Must7\<close>. Each takes values of
  independent type parameters and a trailing \<open>error\<close>; it panics with the error
  when it is not \<open>nil\<close> and otherwise returns its values. Go's type parameters
  become HOL type variables and the result tuple a product; a call that executes
  \<open>panic(v)\<close> is \<open>Inl v\<close>, and the runtime raises it (\<open>gopanic\<close>). Note that \<open>Must\<close> tests \<open>err == nil\<close> first while the
  others test \<open>err != nil\<close>; the definitions keep each source's order.
\<close>

definition Must0 :: "goerror \<Rightarrow> gval + unit" where
  "Must0 err = (if err \<noteq> None then Inl (error_val err) else Inr ())"

definition Must :: "'t \<Rightarrow> goerror \<Rightarrow> gval + 't" where
  "Must v err = (if err = None then Inr v else Inl (error_val err))"

definition Must2 :: "'t1 \<Rightarrow> 't2 \<Rightarrow> goerror \<Rightarrow> gval + ('t1 \<times> 't2)" where
  "Must2 v1 v2 err = (if err \<noteq> None then Inl (error_val err) else Inr (v1, v2))"

definition Must3 :: "'t1 \<Rightarrow> 't2 \<Rightarrow> 't3 \<Rightarrow> goerror \<Rightarrow> gval + ('t1 \<times> 't2 \<times> 't3)" where
  "Must3 v1 v2 v3 err = (if err \<noteq> None then Inl (error_val err) else Inr (v1, v2, v3))"

definition Must4 ::
  "'t1 \<Rightarrow> 't2 \<Rightarrow> 't3 \<Rightarrow> 't4 \<Rightarrow> goerror \<Rightarrow> gval + ('t1 \<times> 't2 \<times> 't3 \<times> 't4)" where
  "Must4 v1 v2 v3 v4 err =
     (if err \<noteq> None then Inl (error_val err) else Inr (v1, v2, v3, v4))"

definition Must5 ::
  "'t1 \<Rightarrow> 't2 \<Rightarrow> 't3 \<Rightarrow> 't4 \<Rightarrow> 't5 \<Rightarrow> goerror \<Rightarrow> gval + ('t1 \<times> 't2 \<times> 't3 \<times> 't4 \<times> 't5)" where
  "Must5 v1 v2 v3 v4 v5 err =
     (if err \<noteq> None then Inl (error_val err) else Inr (v1, v2, v3, v4, v5))"

definition Must6 ::
  "'t1 \<Rightarrow> 't2 \<Rightarrow> 't3 \<Rightarrow> 't4 \<Rightarrow> 't5 \<Rightarrow> 't6 \<Rightarrow> goerror \<Rightarrow>
     gval + ('t1 \<times> 't2 \<times> 't3 \<times> 't4 \<times> 't5 \<times> 't6)" where
  "Must6 v1 v2 v3 v4 v5 v6 err =
     (if err \<noteq> None then Inl (error_val err) else Inr (v1, v2, v3, v4, v5, v6))"

definition Must7 ::
  "'t1 \<Rightarrow> 't2 \<Rightarrow> 't3 \<Rightarrow> 't4 \<Rightarrow> 't5 \<Rightarrow> 't6 \<Rightarrow> 't7 \<Rightarrow> goerror \<Rightarrow>
     gval + ('t1 \<times> 't2 \<times> 't3 \<times> 't4 \<times> 't5 \<times> 't6 \<times> 't7)" where
  "Must7 v1 v2 v3 v4 v5 v6 v7 err =
     (if err \<noteq> None then Inl (error_val err) else Inr (v1, v2, v3, v4, v5, v6, v7))"

text \<open>
  The reference contract of the whole family, a single generic function over the
  result tuple: pass the tuple through when the error is \<open>nil\<close>, raise the error
  itself otherwise.
\<close>

definition must_tuple :: "'a \<Rightarrow> goerror \<Rightarrow> gval + 'a" where
  "must_tuple v err = (case err of None \<Rightarrow> Inr v | Some e \<Rightarrow> Inl (VErr e))"

text \<open>
  A call \<open>MustN(v1, ..., vN, err)\<close> at values of the dynamic type \<open>any\<close>: the helper
  of arity \<open>N\<close> is chosen by the number of values. No helper takes more than seven,
  so a call with eight or more does not compile (\<open>None\<close>).
\<close>

fun must_call :: "gval list \<Rightarrow> goerror \<Rightarrow> (gval + gval list) option" where
  "must_call [] err = Some (map_sum id (\<lambda>_. []) (Must0 err))"
| "must_call [a] err = Some (map_sum id (\<lambda>a. [a]) (Must a err))"
| "must_call [a, b] err = Some (map_sum id (\<lambda>(a, b). [a, b]) (Must2 a b err))"
| "must_call [a, b, c] err = Some (map_sum id (\<lambda>(a, b, c). [a, b, c]) (Must3 a b c err))"
| "must_call [a, b, c, d] err =
     Some (map_sum id (\<lambda>(a, b, c, d). [a, b, c, d]) (Must4 a b c d err))"
| "must_call [a, b, c, d, e] err =
     Some (map_sum id (\<lambda>(a, b, c, d, e). [a, b, c, d, e]) (Must5 a b c d e err))"
| "must_call [a, b, c, d, e, f] err =
     Some (map_sum id (\<lambda>(a, b, c, d, e, f). [a, b, c, d, e, f]) (Must6 a b c d e f err))"
| "must_call [a, b, c, d, e, f, g] err =
     Some (map_sum id (\<lambda>(a, b, c, d, e, f, g). [a, b, c, d, e, f, g]) (Must7 a b c d e f g err))"
| "must_call vs err = None"

subsection \<open>Each helper against the reference contract\<close>

lemma must_tuple_nil [simp]: "must_tuple v None = Inr v"
  by (simp add: must_tuple_def)

lemma must_tuple_error [simp]: "must_tuple v (Some e) = Inl (VErr e)"
  by (simp add: must_tuple_def)

lemma Must0_tuple: "Must0 err = must_tuple () err"
  by (cases err) (simp_all add: Must0_def)

lemma Must_tuple: "Must v err = must_tuple v err"
  by (cases err) (simp_all add: Must_def)

lemma Must2_tuple: "Must2 v1 v2 err = must_tuple (v1, v2) err"
  by (cases err) (simp_all add: Must2_def)

lemma Must3_tuple: "Must3 v1 v2 v3 err = must_tuple (v1, v2, v3) err"
  by (cases err) (simp_all add: Must3_def)

lemma Must4_tuple: "Must4 v1 v2 v3 v4 err = must_tuple (v1, v2, v3, v4) err"
  by (cases err) (simp_all add: Must4_def)

lemma Must5_tuple: "Must5 v1 v2 v3 v4 v5 err = must_tuple (v1, v2, v3, v4, v5) err"
  by (cases err) (simp_all add: Must5_def)

lemma Must6_tuple: "Must6 v1 v2 v3 v4 v5 v6 err = must_tuple (v1, v2, v3, v4, v5, v6) err"
  by (cases err) (simp_all add: Must6_def)

lemma Must7_tuple: "Must7 v1 v2 v3 v4 v5 v6 v7 err = must_tuple (v1, v2, v3, v4, v5, v6, v7) err"
  by (cases err) (simp_all add: Must7_def)

lemmas Must_family_tuple =
  Must0_tuple Must_tuple Must2_tuple Must3_tuple Must4_tuple Must5_tuple Must6_tuple Must7_tuple

lemma must_call_tuple:
  "length vs \<le> 7 \<Longrightarrow> must_call vs err = Some (must_tuple vs err)"
  by (cases err; cases "(vs, err)" rule: must_call.cases) (auto simp: Must_family_tuple)

lemma must_call_arity: "must_call vs err \<noteq> None \<longleftrightarrow> length vs \<le> 7"
  by (cases "(vs, err)" rule: must_call.cases) auto

text \<open>
  C4: a call of any helper of the family, \<open>Must0\<close> to \<open>Must7\<close>, with a \<open>nil\<close> error
  returns its values unchanged and does not panic.
\<close>

theorem must_call_nil_passthrough:
  assumes "length vs \<le> 7"
  shows "must_call vs None = Some (Inr vs)"
  using assms by (simp add: must_call_tuple)

theorem must_call_nil_passthrough_witness:
  "length [VInt 1, VInt 2, VInt 3] \<le> 7 \<and>
   must_call [VInt 1, VInt 2, VInt 3] None = Some (Inr [VInt 1, VInt 2, VInt 3])"
  using must_call_nil_passthrough [of "[VInt 1, VInt 2, VInt 3]"] by simp

text \<open>
  C5: a call of any helper of the family with a non-nil error never returns its
  values: it panics, and the payload is that error.
\<close>

theorem must_call_error_panics:
  assumes "length vs \<le> 7"
  shows "must_call vs (Some e) = Some (Inl (VErr e))"
  using assms by (simp add: must_call_tuple)

theorem must_call_error_panics_witness:
  "length [VInt 1, VInt 2] \<le> 7 \<and>
   must_call [VInt 1, VInt 2] (Some (ErrString ''hello'')) = Some (Inl (VErr (ErrString ''hello'')))"
  using must_call_error_panics [of "[VInt 1, VInt 2]" "ErrString ''hello''"] by simp

end
