(* ===== verification/Runtime.thy ===== *)
theory Runtime
  imports Guard Must
begin

text \<open>
  The Go semantics of function calls, \<open>defer\<close> and \<open>panic\<close> that package \<open>rg\<close> is
  written against, for the fragment of Go its tests use: assignments, calls of the
  \<open>Must\<close> family, \<open>panic\<close>, \<open>defer Guard(...)\<close>, immediately invoked closures and
  assignments to the two hook variables. This is the Go specification (sections
  "Defer statements" and "Handling panics"), not code of the repository:
  \<^item> a \<open>defer\<close> evaluates its arguments at once and pushes the call on the frame's
    defer stack;
  \<^item> a panic stops the body; the frame's deferred calls then run in last-in,
    first-out order with the panic in flight; one that recovers ends the panic, a
    deferred call that panics replaces it, and the remaining deferred calls still run;
  \<^item> when the deferred calls are done the call returns normally if nothing is
    panicking any more, and otherwise the panic propagates into the caller.
  A program that is not valid Go for this package (a \<open>Must\<close> call with more than
  seven values, a mismatched tuple assignment, a non-error last argument) is
  \<open>Rejected\<close>.
\<close>

datatype expr =
    Lit gval
  | Var var
  | ErrorsNew string

datatype stmt =
    Assign var expr
  | MustAssign "var list" "expr list" expr
  | Panic expr
  | DeferGuard "var option" "Option list"
  | DeferGuardInClosure "var option" "Option list"
  | Call "stmt list"
  | SetOnGuard "hook option"
  | SetOnGuardWithContext "ctx_hook option"

datatype outcome = Normal | Panicked gval | Rejected

text \<open>
  A deferred \<open>Guard\<close> with its evaluated arguments; the flag records whether
  \<open>Guard\<close> is the deferred function itself (\<open>defer Guard(&err)\<close>) or is called from
  a deferred closure (\<open>defer func() { Guard(&err) }()\<close>).
\<close>

datatype deferred = DGuard "var option" "Option list" bool

primrec eval_expr :: "expr \<Rightarrow> gstate \<Rightarrow> gval" where
  "eval_expr (Lit v) s = v"
| "eval_expr (Var x) s = store s x"
| "eval_expr (ErrorsNew m) s = VErr (errors_New m)"

text \<open>A value passed where Go expects an \<open>error\<close>.\<close>

fun as_error :: "gval \<Rightarrow> goerror option" where
  "as_error VNil = Some None"
| "as_error (VErr e) = Some (Some e)"
| "as_error _ = None"

fun run_defers :: "deferred list \<Rightarrow> gstate \<Rightarrow> gstate" where
  "run_defers [] s = s"
| "run_defers (DGuard p os d # ds) s =
     (case Guard p os d s of
        (Inr _, s') \<Rightarrow> run_defers ds s'
      | (Inl q, s') \<Rightarrow> run_defers ds (s'\<lparr>panicking := Some q\<rparr>))"

fun panic_of :: "outcome \<Rightarrow> gval option" where
  "panic_of (Panicked p) = Some p"
| "panic_of _ = None"

definition outcome_of :: "gstate \<Rightarrow> outcome" where
  "outcome_of s = (case panicking s of None \<Rightarrow> Normal | Some p \<Rightarrow> Panicked p)"

text \<open>The end of a call: run the deferred calls with the body's panic in flight.\<close>

fun finish_call :: "outcome \<times> gstate \<times> deferred list \<Rightarrow> outcome \<times> gstate" where
  "finish_call (Rejected, s, ds) = (Rejected, s)"
| "finish_call (out, s, ds) =
     (let s' = run_defers ds (s\<lparr>panicking := panic_of out\<rparr>)
      in (outcome_of s', s'\<lparr>panicking := None\<rparr>))"

fun exec_stmt :: "stmt \<Rightarrow> gstate \<Rightarrow> deferred list \<Rightarrow> outcome \<times> gstate \<times> deferred list"
and exec_block :: "stmt list \<Rightarrow> gstate \<Rightarrow> deferred list \<Rightarrow> outcome \<times> gstate \<times> deferred list"
where
  "exec_stmt (Assign x e) s ds = (Normal, s\<lparr>store := (store s)(x := eval_expr e s)\<rparr>, ds)"
| "exec_stmt (MustAssign xs es e) s ds =
     (case as_error (eval_expr e s) of
        None \<Rightarrow> (Rejected, s, ds)
      | Some err \<Rightarrow>
          if length xs \<noteq> length es then (Rejected, s, ds)
          else (case must_call (map (\<lambda>a. eval_expr a s) es) err of
                  None \<Rightarrow> (Rejected, s, ds)
                | Some (Inl p) \<Rightarrow> (Panicked (gopanic (panicnil s) p), s, ds)
                | Some (Inr vs) \<Rightarrow> (Normal, s\<lparr>store := upds (store s) xs vs\<rparr>, ds)))"
| "exec_stmt (Panic e) s ds = (Panicked (gopanic (panicnil s) (eval_expr e s)), s, ds)"
| "exec_stmt (DeferGuard p os) s ds = (Normal, s, DGuard p os True # ds)"
| "exec_stmt (DeferGuardInClosure p os) s ds = (Normal, s, DGuard p os False # ds)"
| "exec_stmt (Call body) s ds = (case finish_call (exec_block body s []) of (out, s') \<Rightarrow> (out, s', ds))"
| "exec_stmt (SetOnGuard h) s ds = (Normal, s\<lparr>globals := (globals s)\<lparr>OnGuard := h\<rparr>\<rparr>, ds)"
| "exec_stmt (SetOnGuardWithContext h) s ds =
     (Normal, s\<lparr>globals := (globals s)\<lparr>OnGuardWithContext := h\<rparr>\<rparr>, ds)"
| "exec_block [] s ds = (Normal, s, ds)"
| "exec_block (c # cs) s ds =
     (case exec_stmt c s ds of
        (Normal, s', ds') \<Rightarrow> exec_block cs s' ds'
      | r \<Rightarrow> r)"

text \<open>\<open>func() { body }()\<close>: a call with a fresh defer stack.\<close>

definition call :: "stmt list \<Rightarrow> gstate \<Rightarrow> outcome \<times> gstate" where
  "call body s = finish_call (exec_block body s [])"

text \<open>A deferred call that runs after a finished call's own deferred calls.\<close>

fun defer_after :: "deferred \<Rightarrow> outcome \<times> gstate \<Rightarrow> outcome \<times> gstate" where
  "defer_after d (Rejected, s) = (Rejected, s)"
| "defer_after d (out, s) = finish_call (out, s, [d])"

subsection \<open>Calls, defer stacks and outcomes\<close>

lemma panic_of_outcome_of [simp]: "panic_of (outcome_of s) = panicking s"
  by (simp add: outcome_of_def split: option.splits)

lemma outcome_of_not_Rejected [simp]: "outcome_of s \<noteq> Rejected"
  by (simp add: outcome_of_def split: option.splits)

lemma panicking_same: "panicking s = x \<Longrightarrow> s\<lparr>panicking := x\<rparr> = s"
  by auto

lemma exec_stmt_defers:
  "exec_stmt c s ds = (case exec_stmt c s [] of (out, s', ds') \<Rightarrow> (out, s', ds' @ ds))"
  by (cases c) (auto split: option.splits sum.splits prod.splits)

lemma exec_block_defers:
  "exec_block cs s ds = (case exec_block cs s [] of (out, s', ds') \<Rightarrow> (out, s', ds' @ ds))"
proof (induction cs arbitrary: s ds)
  case Nil
  then show ?case by simp
next
  case (Cons c cs)
  obtain out s1 d1 where c: "exec_stmt c s [] = (out, s1, d1)" by (cases "exec_stmt c s []")
  have cd: "exec_stmt c s ds = (out, s1, d1 @ ds)"
    using c by (subst exec_stmt_defers) simp
  show ?case
  proof (cases out)
    case Normal
    with c cd Cons.IH [of s1 "d1 @ ds"] Cons.IH [of s1 d1] show ?thesis
      by (simp split: prod.splits)
  qed (use c cd in simp_all)
qed

lemma run_defers_append: "run_defers (ds @ ds') s = run_defers ds' (run_defers ds s)"
  by (induction ds s rule: run_defers.induct) (simp_all split: prod.splits sum.splits)

lemma finish_call_run:
  "out \<noteq> Rejected \<Longrightarrow>
   finish_call (out, s, ds) =
     (outcome_of (run_defers ds (s\<lparr>panicking := panic_of out\<rparr>)),
      (run_defers ds (s\<lparr>panicking := panic_of out\<rparr>))\<lparr>panicking := None\<rparr>)"
  by (cases out) (simp_all add: Let_def)

lemma defer_after_outcome_of:
  "defer_after d (outcome_of S, S\<lparr>panicking := None\<rparr>) =
     (outcome_of (run_defers [d] S), (run_defers [d] S)\<lparr>panicking := None\<rparr>)"
  by (cases "panicking S") (simp_all add: outcome_of_def Let_def panicking_same)

lemma call_defer_first:
  "call (DeferGuard p os # body) s = defer_after (DGuard p os True) (call body s)"
proof -
  obtain out s1 d1 where b: "exec_block body s [] = (out, s1, d1)"
    by (cases "exec_block body s []")
  have b': "exec_block body s [DGuard p os True] = (out, s1, d1 @ [DGuard p os True])"
    using b by (subst exec_block_defers) simp
  show ?thesis
  proof (cases "out = Rejected")
    case True
    with b b' show ?thesis by (simp add: call_def)
  next
    case False
    define S where "S = run_defers d1 (s1\<lparr>panicking := panic_of out\<rparr>)"
    have "call body s = (outcome_of S, S\<lparr>panicking := None\<rparr>)"
      using b False by (simp add: call_def finish_call_run S_def)
    moreover have "call (DeferGuard p os # body) s =
        (outcome_of (run_defers [DGuard p os True] S), (run_defers [DGuard p os True] S)\<lparr>panicking := None\<rparr>)"
      using b' False by (simp add: call_def finish_call_run run_defers_append S_def)
    ultimately show ?thesis
      by (simp only: defer_after_outcome_of)
  qed
qed

lemma finish_call_panicking:
  "finish_call r = (out, s') \<Longrightarrow> out \<noteq> Rejected \<Longrightarrow> panicking s' = None"
  by (cases r rule: finish_call.cases) (auto simp: Let_def)

lemma call_panicking_None:
  "call body s = (out, s') \<Longrightarrow> out \<noteq> Rejected \<Longrightarrow> panicking s' = None"
  unfolding call_def by (rule finish_call_panicking)

lemma call_Call_only: "call [Call body] s = call body s"
proof -
  obtain out s' where r: "call body s = (out, s')" by (cases "call body s")
  show ?thesis
  proof (cases "out = Rejected")
    case True
    with r show ?thesis by (simp add: call_def split: prod.splits)
  next
    case False
    with r have "panicking s' = None" by (rule call_panicking_None)
    with r False show ?thesis
      by (cases out) (simp_all add: call_def outcome_of_def Let_def panicking_same split: prod.splits)
  qed
qed

end
