(* ===== verification/Tests.thy ===== *)
theory Tests
  imports Runtime
begin

text \<open>
  The test suite \<open>src/guard_test.go\<close>, translated statement by statement into
  programs of the runtime model. A test function is a list of blocks; each block is
  the statements of one scope (its \<open>var\<close> declarations, which set the zero value,
  and the immediately invoked guarded closure) followed by the \<open>require\<close>
  assertions that the test makes on the variables afterwards.
\<close>

datatype assertion =
    RequireError var
  | RequireNoError var
  | RequireErrorMsg string var
  | RequireEqualInt "64 word" var

fun holds :: "assertion \<Rightarrow> gstate \<Rightarrow> bool" where
  "holds (RequireError x) s = (store s x \<noteq> VNil)"
| "holds (RequireNoError x) s = (store s x = VNil)"
| "holds (RequireErrorMsg m x) s = (case store s x of VErr e \<Rightarrow> error_msg e = m | _ \<Rightarrow> False)"
| "holds (RequireEqualInt n x) s = (store s x = VInt n)"

type_synonym test_block = "stmt list \<times> assertion list"

fun run_blocks :: "test_block list \<Rightarrow> gstate \<Rightarrow> bool" where
  "run_blocks [] s = True"
| "run_blocks ((body, asserts) # bs) s =
     (case exec_block body s [] of
        (Normal, s', _) \<Rightarrow> list_all (\<lambda>a. holds a s') asserts \<and> run_blocks bs s'
      | _ \<Rightarrow> False)"

definition init_state :: gstate where
  "init_state = \<lparr>store = (\<lambda>_. VNil), globals = no_hooks, trace = [], panicking = None, panicnil = False\<rparr>"

definition test_passes :: "test_block list \<Rightarrow> bool" where
  "test_passes t = run_blocks t init_state"

definition err_var :: var where "err_var = ''err''"

text \<open>Names of the result variables \<open>v1\<close> ... \<open>vn\<close>.\<close>

definition vnames :: "nat \<Rightarrow> var list" where
  "vnames n = map (\<lambda>i. ''v'' @ nat_digits i) [1..<Suc n]"

definition declare_ints :: "var list \<Rightarrow> stmt list" where
  "declare_ints xs = map (\<lambda>x. Assign x (Lit (VInt 0))) xs"

definition TestGuard :: "test_block list" where
  "TestGuard =
     [([Assign err_var (Lit VNil),
        Call [DeferGuard (Some err_var) [], Panic (ErrorsNew ''hello'')]],
       [RequireError err_var, RequireErrorMsg ''hello'' err_var])]"

definition TestGuardNotError :: "test_block list" where
  "TestGuardNotError =
     [([Assign err_var (Lit VNil),
        Call [DeferGuard (Some err_var) [], Panic (Lit (VStr ''hello''))]],
       [RequireError err_var, RequireErrorMsg ''panic: hello'' err_var])]"

definition TestMust0 :: "test_block list" where
  "TestMust0 =
     [([Assign err_var (Lit VNil),
        Call [DeferGuard (Some err_var) [], MustAssign [] [] (ErrorsNew ''hello'')]],
       [RequireError err_var, RequireErrorMsg ''hello'' err_var])]"

text \<open>
  \<open>TestMust\<close> and \<open>TestMust2\<close> ... \<open>TestMust7\<close> share one shape: a block in which
  \<open>v1, ..., vn = MustN(1, ..., n, errors.New("hello"))\<close> panics and every \<open>vi\<close>
  keeps its zero value, and a block in which the same call with \<open>nil\<close> assigns
  \<open>vi = i\<close>. (\<open>TestMust\<close> passes \<open>3\<close> as its single value.)
\<close>

definition must_block :: "64 word list \<Rightarrow> expr \<Rightarrow> assertion list \<Rightarrow> test_block" where
  "must_block ns e asserts =
     (Assign err_var (Lit VNil) # declare_ints (vnames (length ns)) @
      [Call [DeferGuard (Some err_var) [],
             MustAssign (vnames (length ns)) (map (\<lambda>n. Lit (VInt n)) ns) e]],
      asserts)"

definition TestMustN :: "64 word list \<Rightarrow> test_block list" where
  "TestMustN ns =
     [must_block ns (ErrorsNew ''hello'')
        ([RequireError err_var, RequireErrorMsg ''hello'' err_var] @
         map (\<lambda>x. RequireEqualInt 0 x) (vnames (length ns))),
      must_block ns (Lit VNil)
        (RequireNoError err_var # map2 (\<lambda>n x. RequireEqualInt n x) ns (vnames (length ns)))]"

definition TestMust :: "test_block list" where "TestMust = TestMustN [3]"
definition TestMust2 :: "test_block list" where "TestMust2 = TestMustN [1, 2]"
definition TestMust3 :: "test_block list" where "TestMust3 = TestMustN [1, 2, 3]"
definition TestMust4 :: "test_block list" where "TestMust4 = TestMustN [1, 2, 3, 4]"
definition TestMust5 :: "test_block list" where "TestMust5 = TestMustN [1, 2, 3, 4, 5]"
definition TestMust6 :: "test_block list" where "TestMust6 = TestMustN [1, 2, 3, 4, 5, 6]"
definition TestMust7 :: "test_block list" where "TestMust7 = TestMustN [1, 2, 3, 4, 5, 6, 7]"

definition guard_tests :: "test_block list list" where
  "guard_tests = [TestGuard, TestGuardNotError, TestMust0, TestMust, TestMust2, TestMust3,
                  TestMust4, TestMust5, TestMust6, TestMust7]"

text \<open>
  Every test function of \<open>src/guard_test.go\<close> passes on the model: each
  guarded closure returns normally and every \<open>require\<close> assertion after it holds.
\<close>

lemma guard_test_suite_passes: "list_all test_passes guard_tests"
  by (simp add: guard_tests_def test_passes_def TestGuard_def TestGuardNotError_def TestMust0_def
      TestMust_def TestMust2_def TestMust3_def TestMust4_def TestMust5_def TestMust6_def TestMust7_def
      TestMustN_def must_block_def vnames_def declare_ints_def init_state_def err_var_def
      call_def Guard_def absorb_def no_hooks_def errors_New_def outcome_of_def Let_def
      panic_to_error_def fmt_Errorf_v_def nat_digits.simps digit_char_def
      Must0_def Must_def Must2_def Must3_def Must4_def Must5_def Must6_def Must7_def gopanic_def)

end
