(* ===== verification/Unwind.thy ===== *)
theory Unwind
  imports Runtime
begin

text \<open>
  The unwinding of a Go call as a state machine: a state is the defer stack still
  to run and the goroutine state, whose \<open>panicking\<close> field is the panic in flight.
  One step runs the deferred call on top of the stack; when it panics, its panic
  replaces the one in flight. This is the small-step reading of \<open>run_defers\<close>.
\<close>

type_synonym unwind_state = "deferred list \<times> gstate"

inductive unwind_step :: "unwind_state \<Rightarrow> unwind_state \<Rightarrow> bool" where
  returns: "Guard p os d s = (Inr u, s') \<Longrightarrow> unwind_step (DGuard p os d # ds, s) (ds, s')"
| panics: "Guard p os d s = (Inl q, s') \<Longrightarrow>
     unwind_step (DGuard p os d # ds, s) (ds, s'\<lparr>panicking := Some q\<rparr>)"

inductive_cases unwind_stepE: "unwind_step (ds, s) (ds', s')"

definition guard_targets :: "deferred list \<Rightarrow> var set" where
  "guard_targets ds = {x. \<exists>os d. DGuard (Some x) os d \<in> set ds}"

text \<open>
  The states an unwinding visits, one per step: the goroutine state before each
  deferred call runs, and the state once the stack is empty.
\<close>

fun unwind_trace :: "deferred list \<Rightarrow> gstate \<Rightarrow> gstate list" where
  "unwind_trace [] s = [s]"
| "unwind_trace (d # ds) s = s # unwind_trace ds (run_defers [d] s)"

lemma guard_targets_Nil [simp]: "guard_targets [] = {}"
  by (simp add: guard_targets_def)

lemma guard_targets_Cons [simp]:
  "guard_targets (DGuard p os d # ds) =
     (case p of None \<Rightarrow> guard_targets ds | Some x \<Rightarrow> insert x (guard_targets ds))"
  by (auto simp: guard_targets_def split: option.splits)

lemma guard_targets_mono: "set ds' \<subseteq> set ds \<Longrightarrow> guard_targets ds' \<subseteq> guard_targets ds"
  by (auto simp: guard_targets_def)

lemma Guard_frame_store:
  assumes "Guard err opts direct s = (r, s')"
  shows "(\<forall>y. err \<noteq> Some y \<longrightarrow> store s' y = store s y) \<and> globals s' = globals s"
proof (cases "NilOption \<in> set opts")
  case True
  with assms show ?thesis by (simp add: Guard_nil_option)
next
  case False
  show ?thesis
  proof (cases "direct \<and> panicking s \<noteq> None \<and> panicking s \<noteq> Some VNil")
    case True
    then obtain v where d: direct and v: "panicking s = Some v" and n: "v \<noteq> VNil" by auto
    with False assms have a: "absorb err (guard_ctx opts) v (s\<lparr>panicking := None\<rparr>) = (r, s')"
      by (simp add: Guard_recovers)
    then show ?thesis
      by (auto simp: absorb_def exn_bind_cases store_ptr_def
               dest!: call_OnGuard_frame call_OnGuardWithContext_frame
               split: prod.splits sum.splits option.splits)
  next
    case nn: False
    with False assms show ?thesis
      by (cases "direct \<and> panicking s = Some VNil") (auto simp: Guard_recovers_nil Guard_idle)
  qed
qed

lemma unwind_step_run: "unwind_step (d # ds, s) (ds, run_defers [d] s)"
  by (cases d) (auto split: prod.splits sum.splits intro: unwind_step.intros)

lemma unwind_reaches_run: "unwind_step\<^sup>*\<^sup>* (ds, s) ([], run_defers ds s)"
proof (induction ds arbitrary: s)
  case Nil
  then show ?case by simp
next
  case (Cons d ds)
  have "unwind_step (d # ds, s) (ds, run_defers [d] s)" by (rule unwind_step_run)
  moreover have "unwind_step\<^sup>*\<^sup>* (ds, run_defers [d] s) ([], run_defers ds (run_defers [d] s))"
    by (rule Cons.IH)
  ultimately show ?case
    using run_defers_append [of "[d]" ds s] by (simp add: converse_rtranclp_into_rtranclp)
qed

lemma unwind_step_frame:
  assumes "unwind_step (ds, s) (ds', s')"
  shows "set ds' \<subseteq> set ds \<and> globals s' = globals s \<and>
         (\<forall>y. y \<notin> guard_targets ds \<longrightarrow> store s' y = store s y)"
  using assms
  by (auto elim!: unwind_stepE dest!: Guard_frame_store split: option.splits)

text \<open>
  C19: along any unwinding, deferred calls are only consumed, the hook variables
  never change, and no variable changes unless a deferred \<open>Guard\<close> on the
  initial stack points to it (rule induction over the steps).
\<close>

theorem unwind_frame:
  assumes "unwind_step\<^sup>*\<^sup>* (ds, s) (ds', s')"
  shows "set ds' \<subseteq> set ds \<and> globals s' = globals s \<and>
         (\<forall>y. y \<notin> guard_targets ds \<longrightarrow> store s' y = store s y)"
  using assms
proof (induction rule: rtranclp_induct2)
  case refl
  then show ?case by simp
next
  case (step ds1 s1 ds2 s2)
  have sub: "guard_targets ds1 \<subseteq> guard_targets ds"
    using step.IH by (simp add: guard_targets_mono)
  with step.IH unwind_step_frame [OF step.hyps(2)] show ?case
    by auto
qed

theorem unwind_frame_witness:
  "unwind_step\<^sup>*\<^sup>* ([DGuard (Some ''err'') [] True], \<lparr>store = (\<lambda>_. VNil), globals = no_hooks, trace = [],
       panicking = Some (VStr ''boom''), panicnil = False\<rparr>)
     ([], run_defers [DGuard (Some ''err'') [] True] \<lparr>store = (\<lambda>_. VNil), globals = no_hooks, trace = [],
       panicking = Some (VStr ''boom''), panicnil = False\<rparr>) \<and>
   ''x'' \<notin> guard_targets [DGuard (Some ''err'') [] True] \<and>
   store (run_defers [DGuard (Some ''err'') [] True] \<lparr>store = (\<lambda>_. VNil), globals = no_hooks, trace = [],
       panicking = Some (VStr ''boom''), panicnil = False\<rparr>) ''x'' = VNil"
proof -
  let ?ds = "[DGuard (Some ''err'') [] True]"
  let ?s = "\<lparr>store = (\<lambda>_. VNil), globals = no_hooks, trace = [], panicking = Some (VStr ''boom''), panicnil = False\<rparr>"
  have r: "unwind_step\<^sup>*\<^sup>* (?ds, ?s) ([], run_defers ?ds ?s)" by (rule unwind_reaches_run)
  have t: "''x'' \<notin> guard_targets ?ds" by simp
  show ?thesis using unwind_frame [OF r] r t by simp
qed

lemma unwind_trace_reach:
  "t \<in> set (unwind_trace ds s) \<Longrightarrow> \<exists>ds'. unwind_step\<^sup>*\<^sup>* (ds, s) (ds', t)"
proof (induction ds arbitrary: s)
  case Nil
  then show ?case by auto
next
  case (Cons d ds)
  show ?case
  proof (cases "t = s")
    case True
    then show ?thesis by blast
  next
    case False
    with Cons.prems obtain ds' where "unwind_step\<^sup>*\<^sup>* (ds, run_defers [d] s) (ds', t)"
      using Cons.IH by auto
    then show ?thesis
      using unwind_step_run [of d ds s] by (blast intro: converse_rtranclp_into_rtranclp)
  qed
qed

lemma run_defers_globals: "globals (run_defers [d] s) = globals s"
  using unwind_step_frame [OF unwind_step_run [of d "[]" s]] by simp

lemma direct_guard_clears:
  assumes "NilOption \<notin> set os" and "hooks_return (globals s)"
  shows "panicking (run_defers [DGuard (Some x) os True] s) = None"
proof (cases "panicking s")
  case None
  with assms(1) show ?thesis by (simp add: Guard_idle)
next
  case (Some v)
  show ?thesis
  proof (cases "v = VNil")
    case True
    with Some assms(1) show ?thesis by (simp add: Guard_recovers_nil)
  next
    case False
    obtain s' where "absorb (Some x) (guard_ctx os) v (s\<lparr>panicking := None\<rparr>) = (Inr (), s')"
      and "panicking s' = None"
      using absorb_returns [of "s\<lparr>panicking := None\<rparr>" x "guard_ctx os" v] assms(2) by auto
    with Some False assms(1) show ?thesis by (simp add: Guard_recovers)
  qed
qed

text \<open>
  C21: liveness of unwinding. When the defer stack holds a \<open>defer Guard(&err)\<close>
  run directly by the deferred call, with no nil option and hooks that return,
  the unwinding reaches, by its own steps, a state with no panic in flight: a
  panic raised anywhere above that \<open>Guard\<close> is eventually recovered.
\<close>

theorem guard_eventually_clears_panic:
  assumes "DGuard (Some x) os True \<in> set ds" and "NilOption \<notin> set os"
    and "hooks_return (globals s)"
  shows "\<exists>t \<in> set (unwind_trace ds s). panicking t = None \<and> (\<exists>ds'. unwind_step\<^sup>*\<^sup>* (ds, s) (ds', t))"
proof -
  have "\<exists>t \<in> set (unwind_trace ds s). panicking t = None"
    using assms(1,3)
  proof (induction ds arbitrary: s)
    case Nil
    then show ?case by simp
  next
    case (Cons d ds)
    show ?case
    proof (cases "d = DGuard (Some x) os True")
      case True
      then have "panicking (run_defers [d] s) = None"
        using direct_guard_clears [OF assms(2) Cons.prems(2)] by simp
      then show ?thesis by (cases ds) auto
    next
      case False
      with Cons.prems have "DGuard (Some x) os True \<in> set ds" by simp
      moreover have "hooks_return (globals (run_defers [d] s))"
        using Cons.prems(2) by (simp add: run_defers_globals)
      ultimately show ?thesis using Cons.IH by auto
    qed
  qed
  then show ?thesis using unwind_trace_reach by blast
qed

theorem guard_eventually_clears_panic_witness:
  "DGuard (Some ''err'') [] True \<in> set [DGuard None [] False, DGuard (Some ''err'') [] True] \<and>
   NilOption \<notin> set ([] :: Option list) \<and>
   hooks_return (globals \<lparr>store = (\<lambda>_. VNil), globals = no_hooks, trace = [],
       panicking = Some (VStr ''boom''), panicnil = False\<rparr>) \<and>
   (\<exists>t \<in> set (unwind_trace [DGuard None [] False, DGuard (Some ''err'') [] True]
       \<lparr>store = (\<lambda>_. VNil), globals = no_hooks, trace = [],
        panicking = Some (VStr ''boom''), panicnil = False\<rparr>).
     panicking t = None \<and>
     (\<exists>ds'. unwind_step\<^sup>*\<^sup>* ([DGuard None [] False, DGuard (Some ''err'') [] True],
        \<lparr>store = (\<lambda>_. VNil), globals = no_hooks, trace = [],
         panicking = Some (VStr ''boom''), panicnil = False\<rparr>) (ds', t)))"
proof -
  let ?ds = "[DGuard None [] False, DGuard (Some ''err'') [] True]"
  let ?s = "\<lparr>store = (\<lambda>_. VNil), globals = no_hooks, trace = [],
             panicking = Some (VStr ''boom''), panicnil = False\<rparr>"
  have m: "DGuard (Some ''err'') [] True \<in> set ?ds" by simp
  have n: "NilOption \<notin> set ([] :: Option list)" by simp
  have h: "hooks_return (globals ?s)" by (simp add: hooks_return_def no_hooks_def)
  from m n h guard_eventually_clears_panic [OF m n h] show ?thesis by (intro conjI)
qed

end
