(* ===== verification/Hook_Race.thy ===== *)
theory Hook_Race
  imports Guard "HOL-Library.Sublist"
begin

text \<open>
  The hook phase of \<open>Guard\<close> (\<open>src/guard.go\<close>, lines 42--52) run by one goroutine
  while another goroutine assigns the package variables \<open>OnGuard\<close> and
  \<open>OnGuardWithContext\<close>, which the package leaves unsynchronised. The guard
  goroutine is a program counter over the atomic steps of the source: the read
  \<open>fn := OnGuard\<close> into a local, the test \<open>fn != nil\<close> of the local, the call
  \<open>fn(r)\<close>, the same three for \<open>OnGuardWithContext\<close>, and the store through \<open>err\<close>.
  The writer is the list of its pending assignments. The composition interleaves
  the two, one step at a time, in a sequentially consistent memory (a func value is
  one machine word, so a racy read returns one of the values written).
\<close>

datatype guard_pc =
    ReadOnGuard
  | TestOnGuard "hook option"
  | CallOnGuard "hook option"
  | ReadOnGuardWithContext
  | TestOnGuardWithContext "ctx_hook option"
  | CallOnGuardWithContext "ctx_hook option"
  | StoreErr
  | GuardDone
  | GuardPanicked gval

datatype hook_write =
    WriteOnGuard "hook option"
  | WriteOnGuardWithContext "ctx_hook option"

text \<open>\<open>OnGuard = f\<close> and \<open>OnGuardWithContext = g\<close> in the other goroutine.\<close>

fun apply_write :: "hook_write \<Rightarrow> gstate \<Rightarrow> gstate" where
  "apply_write (WriteOnGuard h) s = s\<lparr>globals := (globals s)\<lparr>OnGuard := h\<rparr>\<rparr>"
| "apply_write (WriteOnGuardWithContext g) s =
     s\<lparr>globals := (globals s)\<lparr>OnGuardWithContext := g\<rparr>\<rparr>"

text \<open>
  Calling a func value: a \<open>nil\<close> func panics with the runtime's nil dereference
  error; otherwise the call is logged and the hook returns or panics.
\<close>

definition call_hook_value :: "hook option \<Rightarrow> gval \<Rightarrow> unit go" where
  "call_hook_value fn r s =
     (case fn of
        None \<Rightarrow> go_panic (VErr nil_deref) s
      | Some f \<Rightarrow>
          (let s' = s\<lparr>trace := trace s @ [EvOnGuard r]\<rparr>
           in case f r of None \<Rightarrow> (Inr (), s') | Some q \<Rightarrow> go_panic q s'))"

definition call_ctx_hook_value :: "ctx_hook option \<Rightarrow> gctx \<Rightarrow> gval \<Rightarrow> unit go" where
  "call_ctx_hook_value fn c r s =
     (case fn of
        None \<Rightarrow> go_panic (VErr nil_deref) s
      | Some f \<Rightarrow>
          (let s' = s\<lparr>trace := trace s @ [EvOnGuardWithContext c r]\<rparr>
           in case f c r of None \<Rightarrow> (Inr (), s') | Some q \<Rightarrow> go_panic q s'))"

text \<open>Where the guard goroutine continues after a statement that may panic.\<close>

fun resume :: "guard_pc \<Rightarrow> (gval + unit) \<times> gstate \<Rightarrow> guard_pc \<times> gstate" where
  "resume pc (Inr _, s) = (pc, s)"
| "resume pc (Inl q, s) = (GuardPanicked q, s)"

text \<open>One step of the guard goroutine; \<open>None\<close> once it has finished.\<close>

fun guard_step :: "var option \<Rightarrow> gctx \<Rightarrow> gval \<Rightarrow> guard_pc \<Rightarrow> gstate \<Rightarrow> (guard_pc \<times> gstate) option" where
  "guard_step err c r ReadOnGuard s = Some (TestOnGuard (OnGuard (globals s)), s)"
| "guard_step err c r (TestOnGuard fn) s =
     Some (if fn \<noteq> None then CallOnGuard fn else ReadOnGuardWithContext, s)"
| "guard_step err c r (CallOnGuard fn) s =
     Some (resume ReadOnGuardWithContext (call_hook_value fn r s))"
| "guard_step err c r ReadOnGuardWithContext s =
     Some (TestOnGuardWithContext (OnGuardWithContext (globals s)), s)"
| "guard_step err c r (TestOnGuardWithContext fn) s =
     Some (if fn \<noteq> None then CallOnGuardWithContext fn else StoreErr, s)"
| "guard_step err c r (CallOnGuardWithContext fn) s =
     Some (resume StoreErr (call_ctx_hook_value fn c r s))"
| "guard_step err c r StoreErr s =
     Some (resume GuardDone (store_ptr err (VErr (panic_to_error r)) s))"
| "guard_step err c r GuardDone s = None"
| "guard_step err c r (GuardPanicked q) s = None"

text \<open>The interleaving of the guard goroutine with the writer goroutine.\<close>

inductive hook_race :: "var option \<Rightarrow> gctx \<Rightarrow> gval \<Rightarrow>
    guard_pc \<times> hook_write list \<times> gstate \<Rightarrow> guard_pc \<times> hook_write list \<times> gstate \<Rightarrow> bool"
  for err c r where
  guard: "guard_step err c r pc s = Some (pc', s') \<Longrightarrow> hook_race err c r (pc, ws, s) (pc', ws, s')"
| writer: "hook_race err c r (pc, w # ws, s) (pc, ws, apply_write w s)"

inductive_cases hook_raceE: "hook_race err c r (pc, ws, s) b"

text \<open>Hooks, stored or about to be stored, that return for every argument.\<close>

definition hook_returns :: "hook option \<Rightarrow> bool" where
  "hook_returns h \<longleftrightarrow> (\<forall>f. h = Some f \<longrightarrow> (\<forall>v. f v = None))"

definition ctx_hook_returns :: "ctx_hook option \<Rightarrow> bool" where
  "ctx_hook_returns h \<longleftrightarrow> (\<forall>g. h = Some g \<longrightarrow> (\<forall>c v. g c v = None))"

fun write_returns :: "hook_write \<Rightarrow> bool" where
  "write_returns (WriteOnGuard h) = hook_returns h"
| "write_returns (WriteOnGuardWithContext g) = ctx_hook_returns g"

text \<open>
  The invariant of the interleaving: the stored hooks and the pending writes
  return, and a local \<open>fn\<close> about to be called is a non-nil hook that returns.
\<close>

fun pc_ok :: "guard_pc \<Rightarrow> bool" where
  "pc_ok (TestOnGuard fn) = hook_returns fn"
| "pc_ok (CallOnGuard fn) = (fn \<noteq> None \<and> hook_returns fn)"
| "pc_ok (TestOnGuardWithContext fn) = ctx_hook_returns fn"
| "pc_ok (CallOnGuardWithContext fn) = (fn \<noteq> None \<and> ctx_hook_returns fn)"
| "pc_ok (GuardPanicked q) = False"
| "pc_ok _ = True"

definition race_inv :: "guard_pc \<times> hook_write list \<times> gstate \<Rightarrow> bool" where
  "race_inv a \<longleftrightarrow> (case a of (pc, ws, s) \<Rightarrow>
     pc_ok pc \<and> hooks_return (globals s) \<and> (\<forall>w \<in> set ws. write_returns w))"

text \<open>A configuration of the guard goroutine running with no writer.\<close>

abbreviation alone :: "guard_pc \<times> gstate \<Rightarrow> guard_pc \<times> hook_write list \<times> gstate" where
  "alone a \<equiv> (fst a, [], snd a)"

text \<open>The hook calls the guard goroutine may have made before a program point.\<close>

fun phase_events :: "gctx \<Rightarrow> gval \<Rightarrow> guard_pc \<Rightarrow> event list" where
  "phase_events c r ReadOnGuard = []"
| "phase_events c r (TestOnGuard fn) = []"
| "phase_events c r (CallOnGuard fn) = []"
| "phase_events c r ReadOnGuardWithContext = [EvOnGuard r]"
| "phase_events c r (TestOnGuardWithContext fn) = [EvOnGuard r]"
| "phase_events c r (CallOnGuardWithContext fn) = [EvOnGuard r]"
| "phase_events c r _ = [EvOnGuard r, EvOnGuardWithContext c r]"

text \<open>The goroutine's log and store since the start state \<open>s0\<close>.\<close>

definition race_log :: "gctx \<Rightarrow> gval \<Rightarrow> gstate \<Rightarrow> guard_pc \<times> hook_write list \<times> gstate \<Rightarrow> bool" where
  "race_log c r s0 a \<longleftrightarrow> (case a of (pc, ws, s) \<Rightarrow>
     (\<exists>evs. trace s = trace s0 @ evs \<and> subseq evs (phase_events c r pc)))"

definition race_store :: "var \<Rightarrow> gval \<Rightarrow> gstate \<Rightarrow> guard_pc \<times> hook_write list \<times> gstate \<Rightarrow> bool" where
  "race_store x r s0 a \<longleftrightarrow> (case a of (pc, ws, s) \<Rightarrow>
     store s = (if pc = GuardDone then (store s0)(x := VErr (panic_to_error r)) else store s0))"

lemma apply_write_frame [simp]:
  "store (apply_write w s) = store s \<and> trace (apply_write w s) = trace s \<and>
   panicking (apply_write w s) = panicking s \<and> panicnil (apply_write w s) = panicnil s"
  by (cases w) simp_all

lemma hooks_return_iff:
  "hooks_return h \<longleftrightarrow> hook_returns (OnGuard h) \<and> ctx_hook_returns (OnGuardWithContext h)"
  by (auto simp: hooks_return_def hook_returns_def ctx_hook_returns_def split: option.splits)

lemma hooks_return_apply_write:
  "hooks_return (globals s) \<Longrightarrow> write_returns w \<Longrightarrow> hooks_return (globals (apply_write w s))"
  by (cases w) (simp_all add: hooks_return_iff)

lemma call_hook_value_returns:
  "hook_returns (Some f) \<Longrightarrow> call_hook_value (Some f) r s = (Inr (), s\<lparr>trace := trace s @ [EvOnGuard r]\<rparr>)"
  by (simp add: call_hook_value_def hook_returns_def)

lemma call_ctx_hook_value_returns:
  "ctx_hook_returns (Some g) \<Longrightarrow>
   call_ctx_hook_value (Some g) c r s = (Inr (), s\<lparr>trace := trace s @ [EvOnGuardWithContext c r]\<rparr>)"
  by (simp add: call_ctx_hook_value_def ctx_hook_returns_def)

lemma guard_step_inv:
  assumes "err \<noteq> None" and "guard_step err c r pc s = Some (pc', s')"
    and "pc_ok pc" and "hooks_return (globals s)"
  shows "pc_ok pc' \<and> globals s' = globals s"
  using assms
  by (cases pc)
     (auto simp: hooks_return_iff store_ptr_def call_hook_value_returns call_ctx_hook_value_returns)

lemma race_inv_step:
  assumes "err \<noteq> None" and "hook_race err c r a b" and "race_inv a"
  shows "race_inv b"
  using assms(2,3)
proof (cases rule: hook_race.cases)
  case (guard pc s pc' s' ws)
  then show ?thesis using assms(3) guard_step_inv [OF assms(1)] by (fastforce simp: race_inv_def)
next
  case (writer pc w ws s)
  then show ?thesis using assms(3) by (auto simp: race_inv_def hooks_return_apply_write)
qed

lemma race_inv_reach:
  assumes "(hook_race err c r)\<^sup>*\<^sup>* a b" and "err \<noteq> None" and "race_inv a"
  shows "race_inv b"
  using assms by (induction rule: rtranclp_induct) (auto intro: race_inv_step)

lemma race_inv_start:
  "hooks_return (globals s) \<Longrightarrow> \<forall>w \<in> set ws. write_returns w \<Longrightarrow> race_inv (ReadOnGuard, ws, s)"
  by (simp add: race_inv_def)

lemma guard_step_progress: "pc \<noteq> GuardDone \<Longrightarrow> pc_ok pc \<Longrightarrow> \<exists>b. guard_step err c r pc s = Some b"
  by (cases pc) auto

lemma resume_cases: "resume pc x = (pc', s') \<Longrightarrow> pc' = pc \<or> (\<exists>q. pc' = GuardPanicked q)"
  by (cases "(pc, x)" rule: resume.cases) auto

lemma hook_race_alone_seq:
  assumes "(hook_race err c r)\<^sup>*\<^sup>* (pc0, [], s) (alone (resume pc1 (m s)))"
    and "\<And>s'. (hook_race err c r)\<^sup>*\<^sup>* (pc1, [], s') (alone (resume pc2 (k s')))"
  shows "(hook_race err c r)\<^sup>*\<^sup>* (pc0, [], s) (alone (resume pc2 (exn_bind m (\<lambda>_. k) s)))"
proof (cases "m s" rule: prod.exhaust)
  case (Pair x s')
  show ?thesis
  proof (cases x)
    case (Inl q)
    with Pair assms(1) show ?thesis by simp
  next
    case (Inr u)
    with Pair assms(1) have "(hook_race err c r)\<^sup>*\<^sup>* (pc0, [], s) (pc1, [], s')" by simp
    with Pair Inr assms(2) [of s'] show ?thesis by (simp add: rtranclp_trans)
  qed
qed

lemma hook_race_alone_OnGuard:
  "(hook_race err c r)\<^sup>*\<^sup>* (ReadOnGuard, [], s) (alone (resume ReadOnGuardWithContext (call_OnGuard r s)))"
proof -
  have read: "hook_race err c r (ReadOnGuard, [], s) (TestOnGuard (OnGuard (globals s)), [], s)"
    by (rule hook_race.guard) simp
  show ?thesis
  proof (cases "OnGuard (globals s)")
    case None
    have "hook_race err c r (TestOnGuard None, [], s) (ReadOnGuardWithContext, [], s)"
      by (rule hook_race.guard) simp
    with read None show ?thesis by (simp add: call_OnGuard_def)
  next
    case (Some f)
    have test: "hook_race err c r (TestOnGuard (Some f), [], s) (CallOnGuard (Some f), [], s)"
      by (rule hook_race.guard) simp
    have call: "hook_race err c r (CallOnGuard (Some f), [], s)
                  (alone (resume ReadOnGuardWithContext (call_OnGuard r s)))"
      using Some by (intro hook_race.guard) (simp add: call_OnGuard_def call_hook_value_def)
    from read Some have "hook_race err c r (ReadOnGuard, [], s) (TestOnGuard (Some f), [], s)"
      by simp
    then show ?thesis
      using test call by (meson converse_rtranclp_into_rtranclp r_into_rtranclp)
  qed
qed

lemma hook_race_alone_OnGuardWithContext:
  "(hook_race err c r)\<^sup>*\<^sup>* (ReadOnGuardWithContext, [], s)
     (alone (resume StoreErr (call_OnGuardWithContext c r s)))"
proof -
  have read: "hook_race err c r (ReadOnGuardWithContext, [], s)
                (TestOnGuardWithContext (OnGuardWithContext (globals s)), [], s)"
    by (rule hook_race.guard) simp
  show ?thesis
  proof (cases "OnGuardWithContext (globals s)")
    case None
    have "hook_race err c r (TestOnGuardWithContext None, [], s) (StoreErr, [], s)"
      by (rule hook_race.guard) simp
    with read None show ?thesis by (simp add: call_OnGuardWithContext_def)
  next
    case (Some g)
    have test: "hook_race err c r (TestOnGuardWithContext (Some g), [], s)
                  (CallOnGuardWithContext (Some g), [], s)"
      by (rule hook_race.guard) simp
    have call: "hook_race err c r (CallOnGuardWithContext (Some g), [], s)
                  (alone (resume StoreErr (call_OnGuardWithContext c r s)))"
      using Some by (intro hook_race.guard) (simp add: call_OnGuardWithContext_def call_ctx_hook_value_def)
    from read Some have "hook_race err c r (ReadOnGuardWithContext, [], s)
                           (TestOnGuardWithContext (Some g), [], s)"
      by simp
    then show ?thesis
      using test call by (meson converse_rtranclp_into_rtranclp r_into_rtranclp)
  qed
qed

lemma hook_race_alone_absorb:
  "(hook_race err c r)\<^sup>*\<^sup>* (ReadOnGuard, [], s) (alone (resume GuardDone (absorb err c r s)))"
  unfolding absorb_def
proof (rule hook_race_alone_seq [OF hook_race_alone_OnGuard])
  fix s'
  show "(hook_race err c r)\<^sup>*\<^sup>* (ReadOnGuardWithContext, [], s')
          (alone (resume GuardDone
             (exn_bind (call_OnGuardWithContext c r) (\<lambda>_. store_ptr err (VErr (panic_to_error r))) s')))"
  proof (rule hook_race_alone_seq [OF hook_race_alone_OnGuardWithContext])
    fix s''
    show "(hook_race err c r)\<^sup>*\<^sup>* (StoreErr, [], s'')
            (alone (resume GuardDone (store_ptr err (VErr (panic_to_error r)) s'')))"
      by (rule r_into_rtranclp, rule hook_race.guard) simp
  qed
qed

lemma race_inv_final:
  assumes "race_inv (pc, ws', s')" and "\<not> (\<exists>b. hook_race err c r (pc, ws', s') b)"
  shows "pc = GuardDone \<and> ws' = []"
proof -
  have "pc = GuardDone"
  proof (rule ccontr)
    assume "pc \<noteq> GuardDone"
    with assms(1) obtain b where "guard_step err c r pc s' = Some b"
      using guard_step_progress [of pc err c r s'] by (auto simp: race_inv_def)
    with assms(2) show False by (cases b) (blast intro: hook_race.guard)
  qed
  moreover have "ws' = []"
    using assms(2) by (cases ws') (blast intro: hook_race.writer)+
  ultimately show ?thesis ..
qed

text \<open>
  C22: reading each hook variable once into a local makes \<open>Guard\<close> safe against a
  concurrent writer: whatever the interleaving with assignments of hooks that
  return (\<open>nil\<close> included), the guard goroutine never panics, in particular it
  never calls a \<open>nil\<close> func when \<open>OnGuard = nil\<close> lands between the test and the call.
\<close>

theorem hook_race_no_panic:
  assumes "(hook_race err c r)\<^sup>*\<^sup>* (ReadOnGuard, ws, s) (pc, ws', s')"
    and "err \<noteq> None" and "hooks_return (globals s)" and "\<forall>w \<in> set ws. write_returns w"
  shows "\<forall>q. pc \<noteq> GuardPanicked q"
proof -
  have "race_inv (pc, ws', s')"
    using race_inv_reach [OF assms(1,2) race_inv_start [OF assms(3,4)]] .
  then show ?thesis by (auto simp: race_inv_def)
qed

theorem hook_race_no_panic_witness:
  "(hook_race (Some ''err'') CtxTODO (VStr ''boom''))\<^sup>*\<^sup>*
     (ReadOnGuard, [WriteOnGuard (Some (\<lambda>_. None)), WriteOnGuard None],
      \<lparr>store = (\<lambda>_. VNil), globals = no_hooks, trace = [], panicking = None, panicnil = False\<rparr>)
     (TestOnGuard (Some (\<lambda>_. None)), [],
      \<lparr>store = (\<lambda>_. VNil), globals = no_hooks, trace = [], panicking = None, panicnil = False\<rparr>) \<and>
   Some ''err'' \<noteq> None \<and>
   hooks_return (globals \<lparr>store = (\<lambda>_. VNil), globals = no_hooks, trace = [], panicking = None,
     panicnil = False\<rparr>) \<and>
   write_returns (WriteOnGuard (Some (\<lambda>_. None))) \<and> write_returns (WriteOnGuard None) \<and>
   (\<forall>q. TestOnGuard (Some (\<lambda>_. None)) \<noteq> GuardPanicked q)"
proof -
  let ?s = "\<lparr>store = (\<lambda>_. VNil), globals = no_hooks, trace = [], panicking = None, panicnil = False\<rparr>"
  let ?f = "Some (\<lambda>_::gval. None :: gval option)"
  let ?ws = "[WriteOnGuard ?f, WriteOnGuard None]"
  let ?R = "hook_race (Some ''err'') CtxTODO (VStr ''boom'')"
  have s1: "?R (ReadOnGuard, ?ws, ?s) (ReadOnGuard, [WriteOnGuard None], apply_write (WriteOnGuard ?f) ?s)"
    by (rule hook_race.writer)
  have s2: "?R (ReadOnGuard, [WriteOnGuard None], apply_write (WriteOnGuard ?f) ?s)
                (TestOnGuard ?f, [WriteOnGuard None], apply_write (WriteOnGuard ?f) ?s)"
    by (rule hook_race.guard) simp
  have s3: "?R (TestOnGuard ?f, [WriteOnGuard None], apply_write (WriteOnGuard ?f) ?s)
                (TestOnGuard ?f, [], ?s)"
    using hook_race.writer [of "Some ''err''" CtxTODO "VStr ''boom''" "TestOnGuard ?f" "WriteOnGuard None" "[]"
                               "apply_write (WriteOnGuard ?f) ?s"]
    by (simp add: no_hooks_def)
  have path: "?R\<^sup>*\<^sup>* (ReadOnGuard, ?ws, ?s) (TestOnGuard ?f, [], ?s)"
    using s1 s2 s3 by (meson converse_rtranclp_into_rtranclp r_into_rtranclp)
  have h: "hooks_return (globals ?s)" by (simp add: hooks_return_def no_hooks_def)
  have w: "\<forall>w \<in> set ?ws. write_returns w" by (simp add: hook_returns_def)
  from path h w hook_race_no_panic [OF path _ h w] show ?thesis by (simp add: hook_returns_def)
qed

lemma phase_events_mono:
  "guard_step err c r pc s = Some (pc', s') \<Longrightarrow> subseq (phase_events c r pc) (phase_events c r pc')"
  by (cases pc) (auto dest!: resume_cases)

lemma subseq_Nil_iff [simp]: "subseq xs [] \<longleftrightarrow> xs = []"
  by (auto dest: list_emb_Nil2)

lemma subseq_singleton_iff [simp]: "subseq xs [a] \<longleftrightarrow> xs = [] \<or> xs = [a]"
  by (cases xs) auto

lemma guard_step_trace:
  assumes "guard_step err c r pc s = Some (pc', s')"
  shows "\<exists>e. trace s' = trace s @ e \<and>
           (\<forall>evs. subseq evs (phase_events c r pc) \<longrightarrow> subseq (evs @ e) (phase_events c r pc'))"
proof (cases pc)
  case (CallOnGuard fn)
  with assms show ?thesis
    by (cases fn; cases "the fn r")
       (auto simp: call_hook_value_def dest!: resume_cases)
next
  case (CallOnGuardWithContext fn)
  with assms show ?thesis
    by (cases fn; cases "the fn c r")
       (auto simp: call_ctx_hook_value_def dest!: resume_cases)
next
  case StoreErr
  with assms show ?thesis
    by (cases err) (auto simp: store_ptr_def)
qed (use assms phase_events_mono in \<open>auto intro: subseq_order.order_trans\<close>)

lemma guard_step_store:
  assumes "guard_step (Some x) c r pc s = Some (pc', s')"
  shows "store s' = (if pc' = GuardDone then (store s)(x := VErr (panic_to_error r)) else store s)"
  using assms
  by (cases pc)
     (auto simp: call_hook_value_def call_ctx_hook_value_def store_ptr_def Let_def
           split: option.splits if_splits dest!: resume_cases)

lemma race_log_step:
  assumes "hook_race err c r a b" and "race_log c r s0 a"
  shows "race_log c r s0 b"
  using assms
proof (cases rule: hook_race.cases)
  case (guard pc s pc' s' ws)
  then show ?thesis
    using assms(2) guard_step_trace [OF guard(3)] by (fastforce simp: race_log_def)
qed (auto simp: race_log_def)

lemma race_store_step:
  assumes "hook_race (Some x) c r a b" and "race_store x r s0 a"
  shows "race_store x r s0 b"
  using assms
proof (cases rule: hook_race.cases)
  case (guard pc s pc' s' ws)
  moreover have "pc \<noteq> GuardDone" using guard(3) by auto
  ultimately show ?thesis
    using assms(2) guard_step_store [OF guard(3)] by (simp add: race_store_def)
qed (auto simp: race_store_def)

lemma race_log_reach:
  "(hook_race err c r)\<^sup>*\<^sup>* a b \<Longrightarrow> race_log c r s0 a \<Longrightarrow> race_log c r s0 b"
  by (induction rule: rtranclp_induct) (auto intro: race_log_step)

lemma race_store_reach:
  "(hook_race (Some x) c r)\<^sup>*\<^sup>* a b \<Longrightarrow> race_store x r s0 a \<Longrightarrow> race_store x r s0 b"
  by (induction rule: rtranclp_induct) (auto intro: race_store_step)

lemma phase_events_le: "subseq (phase_events c r pc) [EvOnGuard r, EvOnGuardWithContext c r]"
  by (cases pc) auto

text \<open>
  C23: under any interleaving with a writer of the hook variables, the guard
  goroutine calls each hook at most once, \<open>OnGuard\<close> before
  \<open>OnGuardWithContext\<close>, with the recovered payload and the resolved context: its
  log is a subsequence of the two calls of the source's order.
\<close>

theorem hook_race_calls_in_order:
  assumes "(hook_race err c r)\<^sup>*\<^sup>* (ReadOnGuard, ws, s) (pc, ws', s')"
  shows "\<exists>evs. trace s' = trace s @ evs \<and> subseq evs [EvOnGuard r, EvOnGuardWithContext c r]"
proof -
  have "race_log c r s (ReadOnGuard, ws, s)" by (simp add: race_log_def)
  from race_log_reach [OF assms this] obtain evs
    where "trace s' = trace s @ evs" and "subseq evs (phase_events c r pc)"
    by (auto simp: race_log_def)
  then show ?thesis using phase_events_le [of c r pc] by (blast intro: subseq_order.order_trans)
qed

theorem hook_race_calls_in_order_witness:
  "(hook_race (Some ''err'') CtxTODO (VStr ''boom''))\<^sup>*\<^sup>*
     (ReadOnGuard, [WriteOnGuard (Some (\<lambda>_. None))],
      \<lparr>store = (\<lambda>_. VNil), globals = no_hooks, trace = [], panicking = None, panicnil = False\<rparr>)
     (ReadOnGuardWithContext, [],
      \<lparr>store = (\<lambda>_. VNil), globals = no_hooks\<lparr>OnGuard := Some (\<lambda>_. None)\<rparr>,
       trace = [EvOnGuard (VStr ''boom'')], panicking = None, panicnil = False\<rparr>) \<and>
   (\<exists>evs. [EvOnGuard (VStr ''boom'')] = [] @ evs \<and>
      subseq evs [EvOnGuard (VStr ''boom''), EvOnGuardWithContext CtxTODO (VStr ''boom'')])"
proof -
  let ?s = "\<lparr>store = (\<lambda>_. VNil), globals = no_hooks, trace = [], panicking = None, panicnil = False\<rparr>"
  let ?f = "Some (\<lambda>_::gval. None :: gval option)"
  let ?s1 = "\<lparr>store = (\<lambda>_. VNil), globals = no_hooks\<lparr>OnGuard := ?f\<rparr>, trace = [],
              panicking = None, panicnil = False\<rparr>"
  let ?s2 = "\<lparr>store = (\<lambda>_. VNil), globals = no_hooks\<lparr>OnGuard := ?f\<rparr>,
              trace = [EvOnGuard (VStr ''boom'')], panicking = None, panicnil = False\<rparr>"
  let ?R = "hook_race (Some ''err'') CtxTODO (VStr ''boom'')"
  have s1: "?R (ReadOnGuard, [WriteOnGuard ?f], ?s) (ReadOnGuard, [], ?s1)"
    using hook_race.writer [of "Some ''err''" CtxTODO "VStr ''boom''" ReadOnGuard "WriteOnGuard ?f" "[]" ?s]
    by simp
  have s2: "?R (ReadOnGuard, [], ?s1) (TestOnGuard ?f, [], ?s1)"
    by (rule hook_race.guard) (simp add: no_hooks_def)
  have s3: "?R (TestOnGuard ?f, [], ?s1) (CallOnGuard ?f, [], ?s1)"
    by (rule hook_race.guard) simp
  have s4: "?R (CallOnGuard ?f, [], ?s1) (ReadOnGuardWithContext, [], ?s2)"
    by (rule hook_race.guard) (simp add: call_hook_value_def)
  have path: "?R\<^sup>*\<^sup>* (ReadOnGuard, [WriteOnGuard ?f], ?s) (ReadOnGuardWithContext, [], ?s2)"
    using s1 s2 s3 s4 by (meson converse_rtranclp_into_rtranclp r_into_rtranclp)
  from path hook_race_calls_in_order [OF path] show ?thesis by simp
qed

text \<open>
  C24: under any interleaving, a guard goroutine that finishes has stored exactly
  the converted payload through \<open>err\<close> and written no other variable.
\<close>

theorem hook_race_done_stores:
  assumes "(hook_race (Some x) c r)\<^sup>*\<^sup>* (ReadOnGuard, ws, s) (GuardDone, ws', s')"
  shows "store s' = (store s)(x := VErr (panic_to_error r))"
proof -
  have "race_store x r s (ReadOnGuard, ws, s)" by (simp add: race_store_def)
  from race_store_reach [OF assms this] show ?thesis by (simp add: race_store_def)
qed

theorem hook_race_done_stores_witness:
  "(hook_race (Some ''err'') CtxTODO (VInt 7))\<^sup>*\<^sup>*
     (ReadOnGuard, [], \<lparr>store = (\<lambda>_. VNil), globals = no_hooks, trace = [], panicking = None, panicnil = False\<rparr>)
     (GuardDone, [], \<lparr>store = (\<lambda>_. VNil)(''err'' := VErr (ErrString ''panic: 7'')), globals = no_hooks,
        trace = [], panicking = None, panicnil = False\<rparr>) \<and>
   (\<lambda>_. VNil)(''err'' := VErr (ErrString ''panic: 7'')) =
     (\<lambda>_. VNil)(''err'' := VErr (panic_to_error (VInt 7)))"
proof -
  let ?s = "\<lparr>store = (\<lambda>_. VNil), globals = no_hooks, trace = [], panicking = None, panicnil = False\<rparr>"
  let ?s' = "\<lparr>store = (\<lambda>_. VNil)(''err'' := VErr (ErrString ''panic: 7'')), globals = no_hooks,
              trace = [], panicking = None, panicnil = False\<rparr>"
  have e: "panic_to_error (VInt 7) = ErrString ''panic: 7''"
    by code_simp
  have a: "absorb (Some ''err'') CtxTODO (VInt 7) ?s = (Inr (), ?s')"
    using e by (simp add: absorb_no_hooks no_hooks_def)
  have path: "(hook_race (Some ''err'') CtxTODO (VInt 7))\<^sup>*\<^sup>* (ReadOnGuard, [], ?s) (GuardDone, [], ?s')"
    using hook_race_alone_absorb [of "Some ''err''" CtxTODO "VInt 7" ?s] a by simp
  from path hook_race_done_stores [OF path] show ?thesis by simp
qed

end
