(* ===== verification/Guarded_Race.thy ===== *)
theory Guarded_Race
  imports Hook_Race Runtime
begin

text \<open>
  A whole guarded function \<open>func f() (err error) { defer Guard(&err, os...); body }\<close>
  run by one goroutine while another assigns the hook variables. The goroutine
  runs the body (with its own deferred calls), then the deferred \<open>Guard\<close>: its
  option loop and \<open>recover()\<close> (\<open>guard_entry\<close>, lines 30--41), which touch no
  shared variable, and then its hook phase, the steps of \<open>Hook_Race\<close>, interleaved
  with the writer. A body that neither defers \<open>Guard\<close> nor assigns the hooks
  (\<open>hook_free_block\<close>) commutes with every assignment of the writer, so running it
  before the interleaving loses no schedule.
\<close>

text \<open>The option loop and \<open>r := recover()\<close> of \<open>Guard\<close>.\<close>

definition guard_entry :: "Option list \<Rightarrow> bool \<Rightarrow> gval go" where
  "guard_entry opts direct = exn_bind (apply_options opts empty_options) (\<lambda>_. recover direct)"

text \<open>\<open>if r != nil\<close>: where the guard goroutine goes after \<open>recover()\<close>.\<close>

fun entry_pc :: "(gval + gval) \<times> gstate \<Rightarrow> guard_pc \<times> gstate" where
  "entry_pc (Inl q, s) = (GuardPanicked q, s)"
| "entry_pc (Inr r, s) = (if r \<noteq> VNil then ReadOnGuard else GuardDone, s)"

text \<open>
  The guarded function up to the hook phase: the body's call, then the deferred
  \<open>Guard\<close> entered with the body's panic in flight.
\<close>

definition guarded_entry :: "Option list \<Rightarrow> stmt list \<Rightarrow> gstate \<Rightarrow> (gval + gval) \<times> gstate" where
  "guarded_entry os body s =
     (case call body s of (out, s1) \<Rightarrow> guard_entry os True (s1\<lparr>panicking := panic_of out\<rparr>))"

text \<open>The outcome of the guarded function once its guard goroutine has finished.\<close>

fun pc_outcome :: "guard_pc \<Rightarrow> outcome" where
  "pc_outcome GuardDone = Normal"
| "pc_outcome (GuardPanicked q) = Panicked q"
| "pc_outcome _ = Rejected"

text \<open>Statements that neither defer a call nor read or assign the hook variables.\<close>

fun hook_free_stmt :: "stmt \<Rightarrow> bool" and hook_free_block :: "stmt list \<Rightarrow> bool" where
  "hook_free_stmt (DeferGuard p os) = False"
| "hook_free_stmt (DeferGuardInClosure p os) = False"
| "hook_free_stmt (SetOnGuard h) = False"
| "hook_free_stmt (SetOnGuardWithContext h) = False"
| "hook_free_stmt (Call body) = hook_free_block body"
| "hook_free_stmt _ = True"
| "hook_free_block [] = True"
| "hook_free_block (c # cs) = (hook_free_stmt c \<and> hook_free_block cs)"

abbreviation start_cfg :: "(gval + gval) \<times> gstate \<Rightarrow> hook_write list \<Rightarrow> guard_pc \<times> hook_write list \<times> gstate" where
  "start_cfg e ws \<equiv> (fst (entry_pc e), ws, snd (entry_pc e))"

lemma eval_expr_globals [simp]: "eval_expr e (s\<lparr>globals := g\<rparr>) = eval_expr e s"
  by (cases e) simp_all

lemma globals_update_commute [simp]:
  "s\<lparr>globals := g, store := m\<rparr> = s\<lparr>store := m, globals := g\<rparr>"
  "s\<lparr>globals := g, panicking := p\<rparr> = s\<lparr>panicking := p, globals := g\<rparr>"
  by simp_all

lemma outcome_of_globals [simp]: "outcome_of (s\<lparr>globals := g\<rparr>) = outcome_of s"
  by (simp add: outcome_of_def)

lemma exec_hook_free_defers:
  "hook_free_stmt c \<Longrightarrow> snd (snd (exec_stmt c s ds)) = ds"
  "hook_free_block cs \<Longrightarrow> snd (snd (exec_block cs s ds)) = ds"
  by (induction c s ds and cs s ds rule: exec_stmt_exec_block.induct)
     (auto split: option.splits sum.splits prod.splits outcome.splits)

lemma finish_call_no_defers_globals:
  "finish_call (out, s\<lparr>globals := g\<rparr>, []) = (fst (finish_call (out, s, [])), (snd (finish_call (out, s, [])))\<lparr>globals := g\<rparr>)"
  by (cases out) (simp_all add: Let_def)

lemma exec_hook_free:
  "hook_free_stmt c \<Longrightarrow> exec_stmt c (s\<lparr>globals := g\<rparr>) ds =
     (case exec_stmt c s ds of (out, s', ds') \<Rightarrow> (out, s'\<lparr>globals := g\<rparr>, ds'))"
  "hook_free_block cs \<Longrightarrow> exec_block cs (s\<lparr>globals := g\<rparr>) ds =
     (case exec_block cs s ds of (out, s', ds') \<Rightarrow> (out, s'\<lparr>globals := g\<rparr>, ds'))"
proof (induction c s ds and cs s ds rule: exec_stmt_exec_block.induct)
  case (6 body s ds)
  obtain out s' ds' where b: "exec_block body s [] = (out, s', ds')" by (cases "exec_block body s []")
  with 6 exec_hook_free_defers(2) [of body s "[]"] have "ds' = []" by simp
  with 6 b show ?case
    by (simp add: finish_call_no_defers_globals split: prod.splits)
next
  case (10 c cs s ds)
  then show ?case
    by (auto split: prod.splits outcome.splits)
qed (auto split: option.splits sum.splits)

lemma exec_hook_free_globals:
  "hook_free_stmt c \<Longrightarrow> globals (fst (snd (exec_stmt c s ds))) = globals s"
  "hook_free_block cs \<Longrightarrow> globals (fst (snd (exec_block cs s ds))) = globals s"
proof (induction c s ds and cs s ds rule: exec_stmt_exec_block.induct)
  case (6 body s ds)
  obtain out s' ds' where b: "exec_block body s [] = (out, s', ds')" by (cases "exec_block body s []")
  with 6 exec_hook_free_defers(2) [of body s "[]"] have "ds' = []" by simp
  with 6 b show ?case by (cases out) (simp_all add: Let_def)
next
  case (10 c cs s ds)
  then show ?case by (auto split: prod.splits outcome.splits)
qed (auto split: option.splits sum.splits)

lemma call_hook_free:
  assumes "hook_free_block body"
  shows "call body (s\<lparr>globals := g\<rparr>) = (fst (call body s), (snd (call body s))\<lparr>globals := g\<rparr>)"
    and "globals (snd (call body s)) = globals s"
proof -
  obtain out s' ds' where b: "exec_block body s [] = (out, s', ds')" by (cases "exec_block body s []")
  with assms exec_hook_free_defers(2) [of body s "[]"] have d: "ds' = []" by simp
  show "call body (s\<lparr>globals := g\<rparr>) = (fst (call body s), (snd (call body s))\<lparr>globals := g\<rparr>)"
    using exec_hook_free(2) [OF assms, where s = s and g = g and ds = "[]"] b d
    by (simp add: call_def finish_call_no_defers_globals)
  show "globals (snd (call body s)) = globals s"
    using exec_hook_free_globals(2) [OF assms, where s = s and ds = "[]"] b d
    by (cases out) (simp_all add: call_def Let_def)
qed

lemma guarded_entry_call:
  "guarded_entry os body s =
     guard_entry os True ((snd (call body s))\<lparr>panicking := panic_of (fst (call body s))\<rparr>)"
  by (simp add: guarded_entry_def split: prod.splits)

lemma guarded_entry_panicked:
  assumes "NilOption \<notin> set os" and "fst (call body s) = Panicked v"
  shows "guarded_entry os body s = (Inr v, (snd (call body s))\<lparr>panicking := None\<rparr>)"
  using assms by (simp add: guarded_entry_call guard_entry_def apply_options_no_nil recover_def)

text \<open>
  C25: a guarded function under a concurrent writer of the hook variables. When
  its body (which does not touch the hooks) panics with a non-nil payload, the
  options are valid, \<open>err\<close> is not nil and every hook stored or assigned returns,
  then under any schedule, once no step is left: the function returns normally,
  every assignment of the writer has happened, and the store is the body's with
  \<open>err\<close> holding the converted payload.
\<close>

theorem guarded_call_race:
  assumes "hook_free_block body" and "NilOption \<notin> set os"
    and "fst (call body s) = Panicked v" and "v \<noteq> VNil"
    and "hooks_return (globals s)" and "\<forall>w \<in> set ws. write_returns w"
    and "(hook_race (Some x) (guard_ctx os) v)\<^sup>*\<^sup>* (start_cfg (guarded_entry os body s) ws) (pc, ws', s')"
    and "\<not> (\<exists>b. hook_race (Some x) (guard_ctx os) v (pc, ws', s') b)"
  shows "pc_outcome pc = Normal \<and> ws' = [] \<and>
         store s' = (store (snd (call body s)))(x := VErr (panic_to_error v))"
proof -
  let ?S = "(snd (call body s))\<lparr>panicking := None\<rparr>"
  have start: "start_cfg (guarded_entry os body s) ws = (ReadOnGuard, ws, ?S)"
    using guarded_entry_panicked [OF assms(2,3)] assms(4) by simp
  have g: "hooks_return (globals ?S)"
    using assms(5) call_hook_free(2) [OF assms(1), of s] by simp
  have run: "(hook_race (Some x) (guard_ctx os) v)\<^sup>*\<^sup>* (ReadOnGuard, ws, ?S) (pc, ws', s')"
    using assms(7) start by simp
  have "pc = GuardDone \<and> ws' = []"
    using race_inv_final [OF race_inv_reach [OF run _ race_inv_start [OF g assms(6)]] assms(8)] by simp
  moreover have "race_store x v ?S (pc, ws', s')"
    using race_store_reach [OF run] by (simp add: race_store_def)
  ultimately show ?thesis by (simp add: race_store_def)
qed

theorem guarded_call_race_witness:
  "hook_free_block [Panic (Lit (VStr ''boom''))] \<and> NilOption \<notin> set ([] :: Option list) \<and>
   fst (call [Panic (Lit (VStr ''boom''))]
     \<lparr>store = (\<lambda>_. VNil), globals = no_hooks, trace = [], panicking = None, panicnil = False\<rparr>) =
     Panicked (VStr ''boom'') \<and>
   VStr ''boom'' \<noteq> VNil \<and>
   hooks_return (globals \<lparr>store = (\<lambda>_. VNil), globals = no_hooks, trace = [], panicking = None,
     panicnil = False\<rparr>) \<and>
   write_returns (WriteOnGuard None) \<and>
   (hook_race (Some ''err'') (guard_ctx []) (VStr ''boom''))\<^sup>*\<^sup>*
     (start_cfg (guarded_entry [] [Panic (Lit (VStr ''boom''))]
        \<lparr>store = (\<lambda>_. VNil), globals = no_hooks, trace = [], panicking = None, panicnil = False\<rparr>)
        [WriteOnGuard None])
     (GuardDone, [], \<lparr>store = (\<lambda>_. VNil)(''err'' := VErr (ErrString ''panic: boom'')),
        globals = no_hooks, trace = [], panicking = None, panicnil = False\<rparr>) \<and>
   \<not> (\<exists>b. hook_race (Some ''err'') (guard_ctx []) (VStr ''boom'')
        (GuardDone, [], \<lparr>store = (\<lambda>_. VNil)(''err'' := VErr (ErrString ''panic: boom'')),
           globals = no_hooks, trace = [], panicking = None, panicnil = False\<rparr>) b) \<and>
   pc_outcome GuardDone = Normal"
proof -
  let ?body = "[Panic (Lit (VStr ''boom''))]"
  let ?s = "\<lparr>store = (\<lambda>_. VNil), globals = no_hooks, trace = [], panicking = None, panicnil = False\<rparr>"
  let ?s' = "\<lparr>store = (\<lambda>_. VNil)(''err'' := VErr (ErrString ''panic: boom'')),
              globals = no_hooks, trace = [], panicking = None, panicnil = False\<rparr>"
  let ?R = "hook_race (Some ''err'') (guard_ctx []) (VStr ''boom'')"
  have c: "call ?body ?s = (Panicked (VStr ''boom''), ?s)"
    by (simp add: call_def Let_def outcome_of_def)
  have e: "guarded_entry [] ?body ?s = (Inr (VStr ''boom''), ?s)"
    using guarded_entry_panicked [of "[]" ?body ?s "VStr ''boom''"] c by simp
  have w: "?R (ReadOnGuard, [WriteOnGuard None], ?s) (ReadOnGuard, [], ?s)"
    using hook_race.writer [of "Some ''err''" "guard_ctx []" "VStr ''boom''" ReadOnGuard
                                "WriteOnGuard None" "[]" ?s]
    by (simp add: no_hooks_def)
  have a: "absorb (Some ''err'') (guard_ctx []) (VStr ''boom'') ?s = (Inr (), ?s')"
    by (simp add: absorb_no_hooks no_hooks_def panic_to_error_def fmt_Errorf_v_def)
  have rest: "?R\<^sup>*\<^sup>* (ReadOnGuard, [], ?s) (GuardDone, [], ?s')"
    using hook_race_alone_absorb [of "Some ''err''" "guard_ctx []" "VStr ''boom''" ?s] a by simp
  have path: "?R\<^sup>*\<^sup>* (start_cfg (guarded_entry [] ?body ?s) [WriteOnGuard None]) (GuardDone, [], ?s')"
    using e w rest by (simp add: converse_rtranclp_into_rtranclp)
  have fin: "\<not> (\<exists>b. ?R (GuardDone, [], ?s') b)" by (auto elim: hook_race.cases)
  have h: "hooks_return (globals ?s)" by (simp add: hooks_return_def no_hooks_def)
  have r: "\<forall>w \<in> set [WriteOnGuard None]. write_returns w" by (simp add: hook_returns_def)
  from guarded_call_race [OF _ _ _ _ h r path fin] c h r path fin show ?thesis
    by (simp add: hook_returns_def)
qed

end
