(* ===== verification/Hook_Race_Panics.thy ===== *)
theory Hook_Race_Panics
  imports Hook_Race
begin

text \<open>
  Where a panic of the guard goroutine can come from when a writer assigns the
  hook variables concurrently, and what the snapshot \<open>fn := OnGuard\<close> costs: a
  hook installed after the read is not called by that \<open>Guard\<close>.
\<close>

text \<open>The values a goroutine may see in each hook variable: the initial one and those the writer assigns.\<close>

fun og_writes :: "hook_write list \<Rightarrow> hook option list" where
  "og_writes [] = []"
| "og_writes (WriteOnGuard h # ws) = h # og_writes ws"
| "og_writes (WriteOnGuardWithContext g # ws) = og_writes ws"

fun ogc_writes :: "hook_write list \<Rightarrow> ctx_hook option list" where
  "ogc_writes [] = []"
| "ogc_writes (WriteOnGuard h # ws) = ogc_writes ws"
| "ogc_writes (WriteOnGuardWithContext g # ws) = g # ogc_writes ws"

text \<open>
  A payload raised by a hook call: some value of \<open>OnGuard\<close> (or of
  \<open>OnGuardWithContext\<close>) that the goroutine may have read panics with it on the
  recovered payload \<open>r\<close> (and the context \<open>c\<close>).
\<close>

definition hook_payload ::
    "hook option list \<Rightarrow> ctx_hook option list \<Rightarrow> bool \<Rightarrow> gctx \<Rightarrow> gval \<Rightarrow> gval \<Rightarrow> bool" where
  "hook_payload hs gs keep c r q \<longleftrightarrow>
     (\<exists>f q'. Some f \<in> set hs \<and> f r = Some q' \<and> q = gopanic keep q') \<or>
     (\<exists>g q'. Some g \<in> set gs \<and> g c r = Some q' \<and> q = gopanic keep q')"

text \<open>Provenance of the guard goroutine's locals and of its panic.\<close>

fun pc_prov :: "hook option list \<Rightarrow> ctx_hook option list \<Rightarrow> bool \<Rightarrow> gctx \<Rightarrow> gval \<Rightarrow> guard_pc \<Rightarrow> bool" where
  "pc_prov hs gs keep c r (TestOnGuard fn) = (fn \<in> set hs)"
| "pc_prov hs gs keep c r (CallOnGuard fn) = (fn \<in> set hs \<and> fn \<noteq> None)"
| "pc_prov hs gs keep c r (TestOnGuardWithContext fn) = (fn \<in> set gs)"
| "pc_prov hs gs keep c r (CallOnGuardWithContext fn) = (fn \<in> set gs \<and> fn \<noteq> None)"
| "pc_prov hs gs keep c r (GuardPanicked q) = hook_payload hs gs keep c r q"
| "pc_prov hs gs keep c r _ = True"

definition prov_inv :: "gstate \<Rightarrow> hook_write list \<Rightarrow> gctx \<Rightarrow> gval \<Rightarrow>
    guard_pc \<times> hook_write list \<times> gstate \<Rightarrow> bool" where
  "prov_inv s0 ws0 c r a \<longleftrightarrow> (case a of (pc, ws, s) \<Rightarrow>
     (let hs = OnGuard (globals s0) # og_writes ws0;
          gs = OnGuardWithContext (globals s0) # ogc_writes ws0 in
      suffix ws ws0 \<and> OnGuard (globals s) \<in> set hs \<and> OnGuardWithContext (globals s) \<in> set gs \<and>
      panicnil s = panicnil s0 \<and> pc_prov hs gs (panicnil s0) c r pc))"

text \<open>
  The decision \<open>fn != nil\<close> taken on the local read by \<open>fn := OnGuard\<close>: the
  calls made since the read, against the value read.
\<close>

fun read_pc_ok :: "hook option \<Rightarrow> gval \<Rightarrow> event list \<Rightarrow> guard_pc \<Rightarrow> bool" where
  "read_pc_ok fn r evs ReadOnGuard = False"
| "read_pc_ok fn r evs (TestOnGuard fn') = (fn' = fn \<and> evs = [])"
| "read_pc_ok fn r evs (CallOnGuard fn') = (fn' = fn \<and> fn \<noteq> None \<and> evs = [])"
| "read_pc_ok fn r evs (GuardPanicked q) = True"
| "read_pc_ok fn r evs _ = (EvOnGuard r \<in> set evs \<longleftrightarrow> fn \<noteq> None)"

definition read_log :: "hook option \<Rightarrow> gval \<Rightarrow> gstate \<Rightarrow> guard_pc \<times> hook_write list \<times> gstate \<Rightarrow> bool" where
  "read_log fn r s0 a \<longleftrightarrow> (case a of (pc, ws, s) \<Rightarrow>
     \<exists>evs. trace s = trace s0 @ evs \<and> read_pc_ok fn r evs pc)"

lemma og_writes_append [simp]: "og_writes (xs @ ys) = og_writes xs @ og_writes ys"
  by (induction xs rule: og_writes.induct) simp_all

lemma ogc_writes_append [simp]: "ogc_writes (xs @ ys) = ogc_writes xs @ ogc_writes ys"
  by (induction xs rule: ogc_writes.induct) simp_all

lemma writes_suffix:
  assumes "suffix (w # ws) ws0"
  shows "suffix ws ws0"
    and "w = WriteOnGuard h \<Longrightarrow> h \<in> set (og_writes ws0)"
    and "w = WriteOnGuardWithContext g \<Longrightarrow> g \<in> set (ogc_writes ws0)"
  using assms by (auto simp: suffix_def)

lemma hook_payload_OnGuard:
  "Some f \<in> set hs \<Longrightarrow> f r = Some q' \<Longrightarrow> hook_payload hs gs keep c r (gopanic keep q')"
  by (auto simp: hook_payload_def)

lemma hook_payload_OnGuardWithContext:
  "Some g \<in> set gs \<Longrightarrow> g c r = Some q' \<Longrightarrow> hook_payload hs gs keep c r (gopanic keep q')"
  by (auto simp: hook_payload_def)

lemma guard_step_prov:
  assumes "guard_step (Some x) c r pc s = Some (pc', s')" and "pc_prov hs gs (panicnil s) c r pc"
    and "OnGuard (globals s) \<in> set hs" and "OnGuardWithContext (globals s) \<in> set gs"
  shows "pc_prov hs gs (panicnil s) c r pc' \<and> globals s' = globals s \<and> panicnil s' = panicnil s"
proof (cases pc)
  case (CallOnGuard fn)
  with assms show ?thesis
    by (cases fn; cases "the fn r")
       (auto simp: call_hook_value_def intro: hook_payload_OnGuard elim!: resume.elims)
next
  case (CallOnGuardWithContext fn)
  with assms show ?thesis
    by (cases fn; cases "the fn c r")
       (auto simp: call_ctx_hook_value_def intro: hook_payload_OnGuardWithContext elim!: resume.elims)
next
  case StoreErr
  with assms show ?thesis by (auto simp: store_ptr_def)
qed (use assms in auto)

lemma prov_inv_step:
  assumes "hook_race (Some x) c r a b" and "prov_inv s0 ws0 c r a"
  shows "prov_inv s0 ws0 c r b"
  using assms
proof (cases rule: hook_race.cases)
  case (guard pc s pc' s' ws)
  let ?hs = "OnGuard (globals s0) # og_writes ws0"
  let ?gs = "OnGuardWithContext (globals s0) # ogc_writes ws0"
  from assms(2) guard have inv: "suffix ws ws0" "OnGuard (globals s) \<in> set ?hs"
    "OnGuardWithContext (globals s) \<in> set ?gs" "panicnil s = panicnil s0"
    "pc_prov ?hs ?gs (panicnil s) c r pc"
    by (simp_all add: prov_inv_def Let_def)
  from guard_step_prov [OF guard(3) inv(5) inv(2) inv(3)] guard inv show ?thesis
    by (simp add: prov_inv_def Let_def)
next
  case (writer pc w ws s)
  then show ?thesis
    using assms(2) writes_suffix [of w ws ws0] by (cases w) (auto simp: prov_inv_def Let_def)
qed

lemma prov_inv_reach:
  "(hook_race (Some x) c r)\<^sup>*\<^sup>* a b \<Longrightarrow> prov_inv s0 ws0 c r a \<Longrightarrow> prov_inv s0 ws0 c r b"
  by (induction rule: rtranclp_induct) (auto intro: prov_inv_step)

text \<open>
  C26: under any interleaving with a writer of the hook variables, a panic of the
  guard goroutine (with a non-nil \<open>err\<close>) is raised by a hook: by a value of
  \<open>OnGuard\<close> or \<open>OnGuardWithContext\<close> that was stored initially or assigned by
  the writer, called on the recovered payload. In particular it is never the nil
  dereference of calling a func that became \<open>nil\<close> after it was tested.
\<close>

theorem hook_race_panic_from_hook:
  assumes "(hook_race (Some x) c r)\<^sup>*\<^sup>* (ReadOnGuard, ws, s) (GuardPanicked q, ws', s')"
  shows "hook_payload (OnGuard (globals s) # og_writes ws) (OnGuardWithContext (globals s) # ogc_writes ws)
           (panicnil s) c r q"
proof -
  have "prov_inv s ws c r (ReadOnGuard, ws, s)" by (simp add: prov_inv_def)
  from prov_inv_reach [OF assms this] show ?thesis by (simp add: prov_inv_def)
qed

theorem hook_race_panic_from_hook_witness:
  "(hook_race (Some ''err'') CtxTODO (VStr ''boom''))\<^sup>*\<^sup>*
     (ReadOnGuard, [WriteOnGuard (Some (\<lambda>_. Some (VStr ''hook'')))], \<lparr>store = (\<lambda>_. VNil), globals = no_hooks, trace = [], panicking = None, panicnil = False\<rparr>)
     (GuardPanicked (VStr ''hook''), [],
      \<lparr>store = (\<lambda>_. VNil), globals = no_hooks\<lparr>OnGuard := Some (\<lambda>_. Some (VStr ''hook''))\<rparr>,
       trace = [EvOnGuard (VStr ''boom'')], panicking = None, panicnil = False\<rparr>) \<and>
   hook_payload [None, Some (\<lambda>_. Some (VStr ''hook''))] [None] False CtxTODO (VStr ''boom'') (VStr ''hook'')"
proof -
  let ?s = "\<lparr>store = (\<lambda>_. VNil), globals = no_hooks, trace = [], panicking = None, panicnil = False\<rparr>"
  let ?f = "Some (\<lambda>_::gval. Some (VStr ''hook''))"
  let ?s1 = "\<lparr>store = (\<lambda>_. VNil), globals = no_hooks\<lparr>OnGuard := ?f\<rparr>, trace = [],
              panicking = None, panicnil = False\<rparr>"
  let ?s2 = "\<lparr>store = (\<lambda>_. VNil), globals = no_hooks\<lparr>OnGuard := ?f\<rparr>,
              trace = [EvOnGuard (VStr ''boom'')], panicking = None, panicnil = False\<rparr>"
  let ?R = "hook_race (Some ''err'') CtxTODO (VStr ''boom'')"
  have s1: "?R (ReadOnGuard, [WriteOnGuard ?f], ?s) (ReadOnGuard, [], ?s1)"
    using hook_race.writer [of "Some ''err''" CtxTODO "VStr ''boom''" ReadOnGuard "WriteOnGuard ?f" "[]" ?s]
    by simp
  have s2: "?R (ReadOnGuard, [], ?s1) (TestOnGuard ?f, [], ?s1)"
    by (rule hook_race.guard) (simp add: no_hooks_def)
  have s3: "?R (TestOnGuard ?f, [], ?s1) (CallOnGuard ?f, [], ?s1)"
    by (rule hook_race.guard) simp
  have s4: "?R (CallOnGuard ?f, [], ?s1) (GuardPanicked (VStr ''hook''), [], ?s2)"
    by (rule hook_race.guard) (simp add: call_hook_value_def go_panic_def exn_throw_def gopanic_def)
  have path: "?R\<^sup>*\<^sup>* (ReadOnGuard, [WriteOnGuard ?f], ?s) (GuardPanicked (VStr ''hook''), [], ?s2)"
    using s1 s2 s3 s4 by (meson converse_rtranclp_into_rtranclp r_into_rtranclp)
  from path hook_race_panic_from_hook [OF path] show ?thesis by (simp add: no_hooks_def)
qed

lemma guard_step_read_log:
  assumes "guard_step err c r pc s = Some (pc', s')" and "read_pc_ok fn r evs pc"
  shows "\<exists>e. trace s' = trace s @ e \<and> read_pc_ok fn r (evs @ e) pc'"
proof (cases pc)
  case (CallOnGuard fn')
  with assms show ?thesis
    by (cases fn'; cases "the fn' r") (auto simp: call_hook_value_def elim!: resume.elims)
next
  case (CallOnGuardWithContext fn')
  with assms show ?thesis
    by (cases fn'; cases "the fn' c r") (auto simp: call_ctx_hook_value_def elim!: resume.elims)
next
  case StoreErr
  with assms show ?thesis
    by (cases err) (auto simp: store_ptr_def elim!: resume.elims)
qed (use assms in \<open>auto split: if_splits\<close>)

lemma read_log_step:
  assumes "hook_race err c r a b" and "read_log fn r s0 a"
  shows "read_log fn r s0 b"
  using assms
proof (cases rule: hook_race.cases)
  case (guard pc s pc' s' ws)
  with assms(2) obtain evs where "trace s = trace s0 @ evs" and "read_pc_ok fn r evs pc"
    by (auto simp: read_log_def)
  with guard_step_read_log [OF guard(3) this(2)] guard show ?thesis
    by (fastforce simp: read_log_def)
qed (use assms(2) in \<open>auto simp: read_log_def\<close>)

lemma read_log_reach:
  "(hook_race err c r)\<^sup>*\<^sup>* a b \<Longrightarrow> read_log fn r s0 a \<Longrightarrow> read_log fn r s0 b"
  by (induction rule: rtranclp_induct) (auto intro: read_log_step)

lemma read_keeps_trace:
  assumes "(hook_race err c r)\<^sup>*\<^sup>* (ReadOnGuard, ws, s) (TestOnGuard fn, ws1, s1)"
  shows "trace s1 = trace s"
proof -
  have "race_log c r s (ReadOnGuard, ws, s)" by (simp add: race_log_def)
  from race_log_reach [OF assms this] show ?thesis by (auto simp: race_log_def)
qed

text \<open>
  C27: the hook call is decided by the value read, not by the variable. Once the
  guard goroutine has read \<open>fn := OnGuard\<close>, whatever the writer assigns
  afterwards, a run that gets past the hooks has called \<open>OnGuard\<close> (with the
  recovered payload) exactly when the value read was non-nil: a hook installed
  after the read is not called, and one removed after the read still is.
\<close>

theorem hook_call_decided_by_read:
  assumes "(hook_race err c r)\<^sup>*\<^sup>* (ReadOnGuard, ws, s) (TestOnGuard fn, ws1, s1)"
    and "(hook_race err c r)\<^sup>*\<^sup>* (TestOnGuard fn, ws1, s1) (pc, ws', s')"
    and "pc = StoreErr \<or> pc = GuardDone"
  shows "EvOnGuard r \<in> set (drop (length (trace s)) (trace s')) \<longleftrightarrow> fn \<noteq> None"
proof -
  have "read_log fn r s1 (TestOnGuard fn, ws1, s1)" by (simp add: read_log_def)
  from read_log_reach [OF assms(2) this] obtain evs
    where "trace s' = trace s1 @ evs" and "read_pc_ok fn r evs pc"
    by (auto simp: read_log_def)
  with assms(3) read_keeps_trace [OF assms(1)] show ?thesis by auto
qed

theorem hook_call_decided_by_read_witness:
  "(hook_race (Some ''err'') CtxTODO (VStr ''boom''))\<^sup>*\<^sup>*
     (ReadOnGuard, [WriteOnGuard (Some (\<lambda>_. None))], \<lparr>store = (\<lambda>_. VNil), globals = no_hooks, trace = [], panicking = None, panicnil = False\<rparr>)
     (TestOnGuard None, [WriteOnGuard (Some (\<lambda>_. None))], \<lparr>store = (\<lambda>_. VNil), globals = no_hooks, trace = [], panicking = None, panicnil = False\<rparr>) \<and>
   (hook_race (Some ''err'') CtxTODO (VStr ''boom''))\<^sup>*\<^sup>*
     (TestOnGuard None, [WriteOnGuard (Some (\<lambda>_. None))], \<lparr>store = (\<lambda>_. VNil), globals = no_hooks, trace = [], panicking = None, panicnil = False\<rparr>) (GuardDone, [], \<lparr>store = (\<lambda>_. VNil)(''err'' := VErr (ErrString ''panic: boom'')), globals = no_hooks\<lparr>OnGuard := Some (\<lambda>_. None)\<rparr>, trace = [], panicking = None, panicnil = False\<rparr>) \<and>
   (GuardDone = StoreErr \<or> GuardDone = GuardDone) \<and>
   EvOnGuard (VStr ''boom'') \<notin> set (drop (length (trace \<lparr>store = (\<lambda>_. VNil), globals = no_hooks, trace = [], panicking = None, panicnil = False\<rparr>)) (trace \<lparr>store = (\<lambda>_. VNil)(''err'' := VErr (ErrString ''panic: boom'')), globals = no_hooks\<lparr>OnGuard := Some (\<lambda>_. None)\<rparr>, trace = [], panicking = None, panicnil = False\<rparr>))"
proof -
  let ?s = "\<lparr>store = (\<lambda>_. VNil), globals = no_hooks, trace = [], panicking = None, panicnil = False\<rparr>"
  let ?f = "Some (\<lambda>_::gval. None :: gval option)"
  let ?s1 = "\<lparr>store = (\<lambda>_. VNil), globals = no_hooks\<lparr>OnGuard := Some (\<lambda>_. None)\<rparr>, trace = [], panicking = None, panicnil = False\<rparr>"
  let ?R = "hook_race (Some ''err'') CtxTODO (VStr ''boom'')"
  have s1: "?R (ReadOnGuard, [WriteOnGuard ?f], ?s) (TestOnGuard None, [WriteOnGuard ?f], ?s)"
    by (rule hook_race.guard) (simp add: no_hooks_def)
  have s2: "?R (TestOnGuard None, [WriteOnGuard ?f], ?s) (ReadOnGuardWithContext, [WriteOnGuard ?f], ?s)"
    by (rule hook_race.guard) simp
  have s3: "?R (ReadOnGuardWithContext, [WriteOnGuard ?f], ?s) (ReadOnGuardWithContext, [], ?s1)"
    using hook_race.writer [of "Some ''err''" CtxTODO "VStr ''boom''" ReadOnGuardWithContext
                               "WriteOnGuard ?f" "[]" ?s]
    by simp
  have s4: "?R\<^sup>*\<^sup>* (ReadOnGuardWithContext, [], ?s1) (StoreErr, [], ?s1)"
    using hook_race_alone_OnGuardWithContext
            [where err = "Some ''err''" and s = ?s1 and c = CtxTODO and r = "VStr ''boom''"]
    by (simp add: call_OnGuardWithContext_def no_hooks_def)
  have s5: "?R (StoreErr, [], ?s1) (GuardDone, [], \<lparr>store = (\<lambda>_. VNil)(''err'' := VErr (ErrString ''panic: boom'')), globals = no_hooks\<lparr>OnGuard := Some (\<lambda>_. None)\<rparr>, trace = [], panicking = None, panicnil = False\<rparr>)"
    by (rule hook_race.guard) (simp add: store_ptr_def panic_to_error_def fmt_Errorf_v_def)
  have p1: "?R\<^sup>*\<^sup>* (ReadOnGuard, [WriteOnGuard ?f], ?s) (TestOnGuard None, [WriteOnGuard ?f], ?s)"
    using s1 by (rule r_into_rtranclp)
  have p2: "?R\<^sup>*\<^sup>* (TestOnGuard None, [WriteOnGuard ?f], ?s) (GuardDone, [], \<lparr>store = (\<lambda>_. VNil)(''err'' := VErr (ErrString ''panic: boom'')), globals = no_hooks\<lparr>OnGuard := Some (\<lambda>_. None)\<rparr>, trace = [], panicking = None, panicnil = False\<rparr>)"
    using s2 s3 s4 s5 by (meson converse_rtranclp_into_rtranclp rtranclp.rtrancl_into_rtrancl)
  have "GuardDone = StoreErr \<or> GuardDone = GuardDone" by simp
  from p1 p2 this hook_call_decided_by_read [OF p1 p2 this] show ?thesis by simp
qed

end
