(* ===== verification/Spec2Isabelle.thy ===== *)
theory Spec2Isabelle
  imports Tests Unwind Guarded_Race Hook_Race_Panics
begin

text \<open>
  \<^bold>\<open>A verification development of package \<open>rg\<close> (\<open>src/guard.go\<close>).\<close>

  \<^bold>\<open>The program.\<close> Package \<open>rg\<close> turns Go panics into error values at a call
  boundary. It has two parts that meet through Go's panic mechanism:
  \<^item> the recovery barrier \<open>Guard(err *error, opts ...Option)\<close>
    (\<open>src/guard.go\<close> lines 29--54), meant to be the first statement of a function as
    \<open>defer Guard(&err)\<close>. When the function panics, \<open>Guard\<close> calls \<open>recover()\<close>,
    calls the package-level hooks \<open>OnGuard\<close> and \<open>OnGuardWithContext\<close>
    (lines 8--13) with the payload, and stores the payload through \<open>err\<close>: as it is
    when it is an \<open>error\<close>, else as \<open>fmt.Errorf("panic: %v", r)\<close>. Its options
    (lines 15--27) set the context passed to \<open>OnGuardWithContext\<close>;
  \<^item> the assert-or-propagate helpers \<open>Must0\<close>, \<open>Must\<close>, \<open>Must2\<close> ... \<open>Must7\<close>
    (lines 56--118), which panic with their trailing error when it is not \<open>nil\<close> and
    otherwise return their values.
  A \<open>Must\<close> call that panics inside a guarded function unwinds to the deferred
  \<open>Guard\<close>, which ends the panic; the function returns normally with \<open>err\<close> set.

  \<^bold>\<open>The theories.\<close>
  \<^item> \<open>Prelude\<close>: the exception-and-state monad \<open>exn\<close> in which code that may panic
    is written (\<open>Inl\<close> is a panic), its laws, and simultaneous assignment \<open>upds\<close>.
  \<^item> \<open>Go_Values\<close>: the Go values the package handles (payloads \<open>gval\<close>, errors
    \<open>gerror\<close> with \<open>error_msg\<close> for \<open>Error()\<close>, contexts \<open>gctx\<close>) and the \<open>%v\<close>
    rendering \<open>fmt_v\<close> of \<open>fmt.Errorf\<close> (decimal \<open>show_int\<close> of a 64-bit \<open>int\<close>).
    Modelled from the Go library, not from \<open>src/\<close>.
  \<^item> \<open>Hooks\<close>: the two hook variables as the record \<open>hooks\<close>; a hook is modelled by
    whether it panics (and with what), and each call is logged as an \<open>event\<close>.
  \<^item> \<open>Go_State\<close>: the goroutine state \<open>gstate\<close> (variables, the package's hooks, the
    hook-call log, the panic in flight, the \<open>GODEBUG=panicnil=1\<close> setting) and the
    runtime's \<open>gopanic\<close>, \<open>recover\<close> (which returns the payload, \<open>nil\<close> when there
    is no panic or the call is not direct) and pointer store \<open>store_ptr\<close> (a nil
    pointer panics).
  \<^item> \<open>Options\<close>: \<open>options\<close>, \<open>Option\<close> (a nil function or a closure), \<open>WithContext\<close>,
    the option loop \<open>apply_options\<close> (a nil option panics) and \<open>resolve_ctx\<close>.
  \<^item> \<open>Guard\<close>: \<open>Guard\<close> itself, its hook calls \<open>call_OnGuard\<close>,
    \<open>call_OnGuardWithContext\<close>, the recovered branch \<open>absorb\<close> and the conversion
    \<open>panic_to_error\<close>; lemmas for every branch (nil option, nothing to recover,
    a recovered \<open>nil\<close> that fails \<open>r != nil\<close>, recovery, hook panics, nil pointer),
    the context \<open>Guard\<close> resolves (C14) and the store invariant (C15).
  \<^item> \<open>Must\<close>: the eight helpers with their own type parameters, the reference
    \<open>must_tuple\<close> they are proved equal to, and \<open>must_call\<close>, the helper of each
    arity applied to values of type \<open>any\<close> (C4, C5).
  \<^item> \<open>Runtime\<close>: Go's semantics of calls, \<open>defer\<close> and \<open>panic\<close> for the fragment the
    tests use (statements \<open>stmt\<close>, executor \<open>exec_stmt\<close>/\<open>exec_block\<close>, deferred
    calls \<open>run_defers\<close>, \<open>call\<close>); from the Go specification, not from \<open>src/\<close>.
  \<^item> \<open>Unwind\<close>: the same unwinding as a small-step state machine
    \<open>unwind_step\<close> (one deferred call per step): the frame of \<open>Guard\<close> lifted to
    whole defer stacks by rule induction (C19); \<open>unwind_trace\<close> lists the states
    it visits, and a direct \<open>Guard\<close> on the stack eventually clears the panic (C21).
  \<^item> \<open>Hook_Race\<close>: the recovered branch of \<open>Guard\<close> (lines 42--52) as the atomic
    steps of a goroutine (\<open>guard_pc\<close>, \<open>guard_step\<close>: read a hook variable into
    \<open>fn\<close>, test \<open>fn != nil\<close>, call \<open>fn\<close>, store \<open>*err\<close>) interleaved
    (\<open>hook_race\<close>) with a goroutine assigning the hook variables (\<open>hook_write\<close>,
    \<open>apply_write\<close>). Under every schedule it is free of panics (C22), calls the
    hooks at most once each in the source's order (C23) and, once done, has stored
    exactly the converted error (C24). The invariants are \<open>race_inv\<close>,
    \<open>race_log\<close> (with \<open>phase_events\<close>, the calls possible before each program
    point) and \<open>race_store\<close>.
  \<^item> \<open>Hook_Race_Panics\<close>: an invariant of provenance (\<open>prov_inv\<close>, \<open>pc_prov\<close>)
    over the values the writer may have assigned (\<open>og_writes\<close>, \<open>ogc_writes\<close>)
    shows that every panic of the interleaved hook phase is raised by a hook value
    that was really stored (C26, with \<open>hook_payload\<close>); an invariant on the value
    read (\<open>read_log\<close>) shows that \<open>OnGuard\<close> is called exactly when the value read
    into \<open>fn\<close> was non-nil, whatever is assigned afterwards (C27).
  \<^item> \<open>Guarded_Race\<close>: the composition of the runtime with \<open>Hook_Race\<close>. A whole
    function \<open>defer Guard(p, os...); body\<close> is the body's \<open>call\<close>, then the
    goroutine-local entry of \<open>Guard\<close> (\<open>guard_entry\<close>: option loop and
    \<open>recover()\<close>, lines 30--41; \<open>entry_pc\<close>: the test \<open>r != nil\<close>), then the
    interleaved hook phase; \<open>pc_outcome\<close> reads the function's outcome off the
    final program point. Under any schedule a panicking function returns normally
    with \<open>err\<close> set (C25). A body that does not touch the hooks
    (\<open>hook_free_block\<close>) commutes with the writer's assignments (lemma
    \<open>call_hook_free\<close>), so running it before the interleaving loses no schedule.
  \<^item> \<open>Tests\<close>: \<open>src/guard_test.go\<close> translated into programs and \<open>require\<close>
    assertions; lemma \<open>guard_test_suite_passes\<close> evaluates them all.
  \<^item> this theory: the contract of a guarded function, \<open>barrier\<close>, stated without
    \<open>defer\<close> or \<open>recover\<close>, and the theorems that span the components.

  \<^bold>\<open>What is proved.\<close> The main result (C1) is a refinement: a function whose first
  statement is \<open>defer Guard(p, opts...)\<close> behaves as the contract \<open>barrier\<close> applied
  to the outcome of the rest of its body. From it follow the spec's scenarios in
  general form: an error raised by any \<open>MustN\<close> is stored as is and leaves the
  assignment targets untouched (C2); a non-error payload becomes
  \<open>"panic: " + %v\<close> (C3), \<open>panic(nil)\<close> a \<open>PanicNilError\<close> (C16); a function that
  returns normally is unaffected (C6); the hooks run in the source's order with the
  resolved context (C7); a panicking hook is not re-absorbed (C8); a nil option or a
  nil \<open>err\<close> pointer makes \<open>Guard\<close> itself panic (C9, C10); \<open>Guard\<close> called from a
  deferred closure recovers nothing (C11); with two guards the last deferred wins
  (C12); a panic crosses unguarded calls to the nearest guard (C13). The \<open>Must\<close>
  family passes values through on \<open>nil\<close> (C4) and panics with the error otherwise
  (C5). Options: last write wins, \<open>context.TODO()\<close> by default (C14). With valid
  options, a non-nil pointer and hooks that return, every panic is absorbed (C17),
  and \<open>Guard\<close> writes nothing but \<open>*err\<close> and never the hook variables (C18, and
  over whole defer stacks C19). Under \<open>GODEBUG=panicnil=1\<close> a \<open>panic(nil)\<close> is
  swallowed without a trace (C20). The unwinding reaches a state with no panic in
  flight once a direct \<open>Guard\<close> has run (C21, liveness). Reading each hook
  variable once into a local makes \<open>Guard\<close> safe against a concurrent writer
  (C22-C24), also for a whole guarded function composed with the runtime (C25);
  its panics come from real hook values (C26), and whether \<open>OnGuard\<close> is called
  is decided by the value read (C27).

  \<^bold>\<open>Choices and limits.\<close> Go \<open>int\<close> is \<open>64 word\<close>. The runtime is Go 1.21 or later;
  the field \<open>panicnil\<close> of the state selects \<open>GODEBUG=panicnil=1\<close>, under which
  \<open>panic(nil)\<close> keeps its \<open>nil\<close> payload as before Go 1.21. No loop of the package is
  unbounded, so no fuel is needed: the executor is structurally recursive, and the
  hook phase of \<open>Hook_Race\<close> is straight-line code whose steps are a \<open>fun\<close>. The
  interleaving assumes a sequentially consistent memory: a func
  value is one machine word, so a racy read returns one of the values written.

  \<^bold>\<open>Not modelled.\<close> A hook's own effects on the hook variables within one
  goroutine: the hook type would have to contain the state that contains hooks, a
  recursive type HOL cannot build; the writer goroutine of \<open>Hook_Race\<close> covers the
  same interleaving point (an assignment between two reads). Weak-memory outcomes
  of the data race. Payloads other than nil, ints, strings, bools and errors;
  typed-nil errors (an interface holding a nil pointer), which no code of the
  package creates; \<open>%v\<close> of contexts; context cancellation, which \<open>Guard\<close> never
  inspects.

  Deferred closures with arbitrary bodies: the package and its tests only defer
  \<open>Guard\<close> itself (and the closure case of C11), so a general closure is a feature
  of the host runtime, not of this code.

  \<^bold>\<open>Status.\<close> Every function and statement of \<open>src/guard.go\<close> is modelled,
  and so is every test of \<open>src/guard_test.go\<close>. The Go library (\<open>errors\<close>,
  \<open>fmt\<close>, \<open>context\<close>) and the Go runtime stay partly modelled by design: the
  development models the part the package and its tests use (the values above;
  calls, \<open>defer\<close>, \<open>panic\<close>, \<open>recover\<close>, \<open>GODEBUG=panicnil\<close>, the interleaving of
  one guard with a hook writer), and the rest is code this repository only
  calls. One extension is left open: a guarded function whose body itself defers
  guards or assigns hooks under a concurrent writer would need the body's
  statements as interleaved steps too; \<open>call_hook_free\<close> covers bodies that do
  neither.
\<close>

subsection \<open>The contract of a guarded function\<close>

text \<open>
  What \<open>defer Guard(p, opts...)\<close> promises, written without \<open>defer\<close>,
  \<open>recover\<close> or the code of \<open>Guard\<close>: the conversion of a payload, the context
  chosen by the options, the hook calls, and the outcome of the guarded function
  from the outcome of its body.
\<close>

definition spec_error :: "gval \<Rightarrow> gerror" where
  "spec_error v = (case v of VErr e \<Rightarrow> e | _ \<Rightarrow> ErrString (''panic: '' @ fmt_v v))"

definition spec_ctx :: "Option list \<Rightarrow> gctx" where
  "spec_ctx os = (case ctx (run_options os empty_options) of None \<Rightarrow> CtxTODO | Some c \<Rightarrow> c)"

definition notify :: "hooks \<Rightarrow> gctx \<Rightarrow> gval \<Rightarrow> event list \<times> gval option" where
  "notify h c v =
     (case (case OnGuard h of None \<Rightarrow> ([], None) | Some f \<Rightarrow> ([EvOnGuard v], f v)) of
        (e1, Some q) \<Rightarrow> (e1, Some q)
      | (e1, None) \<Rightarrow>
          (case OnGuardWithContext h of
             None \<Rightarrow> (e1, None)
           | Some g \<Rightarrow> (e1 @ [EvOnGuardWithContext c v], g c v)))"

fun barrier :: "var option \<Rightarrow> Option list \<Rightarrow> outcome \<times> gstate \<Rightarrow> outcome \<times> gstate" where
  "barrier p os (Rejected, s) = (Rejected, s)"
| "barrier p os (Normal, s) =
     (if NilOption \<in> set os then (Panicked (VErr nil_deref), s) else (Normal, s))"
| "barrier p os (Panicked v, s) =
     (if NilOption \<in> set os then (Panicked (VErr nil_deref), s)
      else if v = VNil then (Normal, s)
      else case notify (globals s) (spec_ctx os) v of
        (evs, Some q) \<Rightarrow> (Panicked (gopanic (panicnil s) q), s\<lparr>trace := trace s @ evs\<rparr>)
      | (evs, None) \<Rightarrow>
          (case p of
             None \<Rightarrow> (Panicked (VErr nil_deref), s\<lparr>trace := trace s @ evs\<rparr>)
           | Some x \<Rightarrow> (Normal, s\<lparr>trace := trace s @ evs, store := (store s)(x := VErr (spec_error v))\<rparr>)))"

definition hooks_unset :: "gstate \<Rightarrow> bool" where
  "hooks_unset s \<longleftrightarrow> OnGuard (globals s) = None \<and> OnGuardWithContext (globals s) = None"

text \<open>Fixtures for the witnesses: hooks that return, and a hook that panics.\<close>

definition quiet_hooks :: hooks where
  "quiet_hooks = \<lparr>OnGuard = Some (\<lambda>_. None), OnGuardWithContext = Some (\<lambda>_ _. None)\<rparr>"

definition failing_hook :: hooks where
  "failing_hook = \<lparr>OnGuard = Some (\<lambda>_. Some (VStr ''hook failed'')), OnGuardWithContext = None\<rparr>"

subsection \<open>The code against the contract\<close>

lemma spec_error_panic_to_error: "spec_error v = panic_to_error v"
  by (cases v) (simp_all add: spec_error_def panic_to_error_def fmt_Errorf_v_def)

lemma spec_ctx_guard_ctx: "spec_ctx os = guard_ctx os"
  by (simp add: spec_ctx_def guard_ctx_def resolve_ctx_def)

lemma absorb_notify:
  "absorb p c v s =
     (case notify (globals s) c v of
        (evs, Some q) \<Rightarrow> (Inl (gopanic (panicnil s) q), s\<lparr>trace := trace s @ evs\<rparr>)
      | (evs, None) \<Rightarrow> store_ptr p (VErr (panic_to_error v)) (s\<lparr>trace := trace s @ evs\<rparr>))"
  by (auto simp: absorb_def notify_def call_OnGuard_def call_OnGuardWithContext_def exn_bind_def
           split: option.splits)

lemma defer_after_barrier:
  assumes "panicking s = None"
  shows "defer_after (DGuard p os True) (out, s) = barrier p os (out, s)"
proof (cases out)
  case Rejected
  then show ?thesis by simp
next
  case Normal
  show ?thesis
  proof (cases "NilOption \<in> set os")
    case True
    with Normal assms show ?thesis
      by (simp add: Guard_nil_option outcome_of_def Let_def)
  next
    case False
    with Normal assms show ?thesis
      by (simp add: Guard_idle outcome_of_def Let_def)
  qed
next
  case (Panicked v)
  show ?thesis
  proof (cases "NilOption \<in> set os")
    case True
    with Panicked assms show ?thesis
      by (simp add: Guard_nil_option outcome_of_def Let_def)
  next
    case nn: False
    show ?thesis
    proof (cases "v = VNil")
      case True
      with Panicked nn assms show ?thesis
        by (simp add: Guard_recovers_nil outcome_of_def Let_def panicking_same)
    next
      case False
      then have g: "Guard p os True (s\<lparr>panicking := Some v\<rparr>) = absorb p (spec_ctx os) v s"
        using assms nn by (simp add: Guard_recovers spec_ctx_guard_ctx panicking_same)
      show ?thesis
        using Panicked False nn assms
        by (auto simp: g absorb_notify outcome_of_def Let_def spec_error_panic_to_error
                 split: prod.splits option.splits)
    qed
  qed
qed

lemma call_Guard_barrier:
  "call (DeferGuard p os # body) s = barrier p os (call body s)"
proof -
  obtain out s' where r: "call body s = (out, s')" by (cases "call body s")
  show ?thesis
  proof (cases "out = Rejected")
    case True
    with r show ?thesis by (simp add: call_defer_first)
  next
    case False
    with r have "panicking s' = None" by (rule call_panicking_None)
    with r show ?thesis by (simp add: call_defer_first defer_after_barrier)
  qed
qed

lemma notify_unset [simp]: "hooks_unset s \<Longrightarrow> notify (globals s) c v = ([], None)"
  by (simp add: hooks_unset_def notify_def)

lemma call_defer_stmt:
  assumes "\<And>s ds. exec_stmt c s ds = (Normal, s, d # ds)"
  shows "call (c # body) s = defer_after d (call body s)"
proof -
  obtain out s1 d1 where b: "exec_block body s [] = (out, s1, d1)"
    by (cases "exec_block body s []")
  have b': "exec_block body s [d] = (out, s1, d1 @ [d])"
    using b by (subst exec_block_defers) simp
  show ?thesis
  proof (cases "out = Rejected")
    case True
    with b b' assms show ?thesis by (simp add: call_def)
  next
    case False
    define S where "S = run_defers d1 (s1\<lparr>panicking := panic_of out\<rparr>)"
    have "call body s = (outcome_of S, S\<lparr>panicking := None\<rparr>)"
      using b False by (simp add: call_def finish_call_run S_def)
    moreover have "call (c # body) s =
        (outcome_of (run_defers [d] S), (run_defers [d] S)\<lparr>panicking := None\<rparr>)"
      using b' False assms by (simp add: call_def finish_call_run run_defers_append S_def)
    ultimately show ?thesis
      by (simp only: defer_after_outcome_of)
  qed
qed

lemma defer_after_indirect:
  assumes "NilOption \<notin> set os" and "panicking s = None" and "out \<noteq> Rejected"
  shows "defer_after (DGuard p os False) (out, s) = (out, s)"
  using assms by (cases out) (simp_all add: Guard_idle outcome_of_def Let_def panicking_same)

lemma call_Panic_only: "call [Panic e] s = (Panicked (gopanic (panicnil s) (eval_expr e s)), s\<lparr>panicking := None\<rparr>)"
  by (simp add: call_def outcome_of_def)

lemma notify_hooks_return: "hooks_return h \<Longrightarrow> snd (notify h c v) = None"
  by (auto simp: hooks_return_def notify_def split: option.splits)

lemma barrier_frame:
  "barrier p os r = r' \<Longrightarrow>
     globals (snd r') = globals (snd r) \<and> (\<forall>y. p \<noteq> Some y \<longrightarrow> store (snd r') y = store (snd r) y)"
  by (cases "(p, os, r)" rule: barrier.cases) (auto split: prod.splits option.splits if_splits)

subsection \<open>Properties of guarded functions\<close>

text \<open>
  C1: a function whose first statement is \<open>defer Guard(p, opts...)\<close> behaves as the
  contract \<open>barrier\<close> applied to the outcome of the rest of its body: a normal
  return stays normal, a panic is absorbed into \<open>*p\<close> after the hooks, and the
  error paths of \<open>Guard\<close> itself (nil option, nil pointer, panicking hook) panic.
\<close>

theorem defer_Guard_refines_barrier:
  "call (DeferGuard p os # body) s = barrier p os (call body s)"
  by (rule call_Guard_barrier)

text \<open>
  C2: under a guard with unset hooks, \<open>v1, ..., vn = MustN(..., e)\<close> with a non-nil
  error \<open>e\<close> (any arity 0 to 7) stores \<open>e\<close> itself in \<open>err\<close>, and every assignment
  target keeps the value it had (spec scenarios A and D).
\<close>

theorem guarded_Must_error_keeps_targets:
  assumes "hooks_unset s" and "length xs = length es" and "length es \<le> 7" and "x \<notin> set xs"
  shows "call [DeferGuard (Some x) [], MustAssign xs es (Lit (VErr e))] s =
           (Normal, s\<lparr>store := (store s)(x := VErr e), panicking := None\<rparr>)"
proof -
  have "call [MustAssign xs es (Lit (VErr e))] s = (Panicked (VErr e), s\<lparr>panicking := None\<rparr>)"
    using assms(2,3) by (simp add: call_def must_call_tuple outcome_of_def)
  then show ?thesis
    using assms(1) by (simp add: call_Guard_barrier spec_error_def)
qed

theorem guarded_Must_error_keeps_targets_witness:
  "hooks_unset init_state \<and> length [''v1'', ''v2'', ''v3''] = length [Lit (VInt 1), Lit (VInt 2), Lit (VInt 3)] \<and>
   length [Lit (VInt 1), Lit (VInt 2), Lit (VInt 3)] \<le> 7 \<and> ''err'' \<notin> set [''v1'', ''v2'', ''v3''] \<and>
   call [DeferGuard (Some ''err'') [],
         MustAssign [''v1'', ''v2'', ''v3''] [Lit (VInt 1), Lit (VInt 2), Lit (VInt 3)]
           (Lit (VErr (ErrString ''hello'')))] init_state =
     (Normal, init_state\<lparr>store := (store init_state)(''err'' := VErr (ErrString ''hello'')),
                         panicking := None\<rparr>)"
  using guarded_Must_error_keeps_targets [of init_state "[''v1'', ''v2'', ''v3'']"
      "[Lit (VInt 1), Lit (VInt 2), Lit (VInt 3)]" "''err''" "ErrString ''hello''"]
  by (simp add: hooks_unset_def init_state_def no_hooks_def)

text \<open>
  C3: under a guard with unset hooks, a panic whose payload is neither an error nor
  \<open>nil\<close> is stored as a new error whose message is \<open>"panic: "\<close> followed by the
  \<open>%v\<close> rendering of the payload (spec scenario B).
\<close>

theorem guarded_panic_non_error_message:
  assumes "hooks_unset s" and "\<forall>e. v \<noteq> VErr e" and "v \<noteq> VNil"
  shows "call [DeferGuard (Some x) [], Panic (Lit v)] s =
           (Normal, s\<lparr>store := (store s)(x := VErr (ErrString (''panic: '' @ fmt_v v))),
                      panicking := None\<rparr>)"
proof -
  have "gopanic (panicnil s) v = v" using assms(3) by simp
  then show ?thesis
    using assms by (cases v) (simp_all add: call_Guard_barrier call_Panic_only spec_error_def)
qed

theorem guarded_panic_non_error_message_witness:
  "hooks_unset init_state \<and> (\<forall>e. VStr ''hello'' \<noteq> VErr e) \<and> VStr ''hello'' \<noteq> VNil \<and>
   call [DeferGuard (Some ''err'') [], Panic (Lit (VStr ''hello''))] init_state =
     (Normal, init_state\<lparr>store := (store init_state)(''err'' := VErr (ErrString ''panic: hello'')),
                         panicking := None\<rparr>)"
  using guarded_panic_non_error_message [of init_state "VStr ''hello''" "''err''"]
  by (simp add: hooks_unset_def init_state_def no_hooks_def)

text \<open>
  C6: when the guarded body returns normally, a deferred \<open>Guard\<close> with valid options
  changes nothing: the outcome and the whole state are those of the body.
\<close>

theorem guard_idle_without_panic:
  assumes "call body s = (Normal, s')" and "NilOption \<notin> set os"
  shows "call (DeferGuard p os # body) s = (Normal, s')"
  using assms by (simp add: call_Guard_barrier)

theorem guard_idle_without_panic_witness:
  "call [Assign ''x'' (Lit (VInt 1))] init_state =
     (Normal, init_state\<lparr>store := (store init_state)(''x'' := VInt 1)\<rparr>) \<and>
   NilOption \<notin> set [WithContext (Some CtxBackground)] \<and>
   call [DeferGuard (Some ''err'') [WithContext (Some CtxBackground)], Assign ''x'' (Lit (VInt 1))] init_state =
     (Normal, init_state\<lparr>store := (store init_state)(''x'' := VInt 1)\<rparr>)"
proof -
  have c: "call [Assign ''x'' (Lit (VInt 1))] init_state =
      (Normal, init_state\<lparr>store := (store init_state)(''x'' := VInt 1)\<rparr>)"
    by (simp add: call_def init_state_def outcome_of_def)
  have n: "NilOption \<notin> set [WithContext (Some CtxBackground)]"
    by (simp add: WithContext_def)
  show ?thesis using guard_idle_without_panic [OF c n, of "Some ''err''"] c n by simp
qed

text \<open>
  C7: when both hooks are set and return, \<open>Guard\<close> calls \<open>OnGuard\<close> with the raw
  payload, then \<open>OnGuardWithContext\<close> with the resolved context and the payload,
  and then stores the converted error.
\<close>

theorem hooks_called_in_order:
  assumes "call body s = (Panicked v, s')" and "NilOption \<notin> set os"
    and "OnGuard (globals s') = Some f" and "OnGuardWithContext (globals s') = Some g"
    and "f v = None" and "g (spec_ctx os) v = None" and "v \<noteq> VNil"
  shows "call (DeferGuard (Some x) os # body) s =
           (Normal, s'\<lparr>trace := trace s' @ [EvOnGuard v, EvOnGuardWithContext (spec_ctx os) v],
                       store := (store s')(x := VErr (spec_error v))\<rparr>)"
  using assms by (simp add: call_Guard_barrier notify_def)

theorem hooks_called_in_order_witness:
  "call [Panic (Lit (VStr ''boom''))] (init_state\<lparr>globals := quiet_hooks\<rparr>) =
     (Panicked (VStr ''boom''), init_state\<lparr>globals := quiet_hooks\<rparr>) \<and>
   NilOption \<notin> set [WithContext (Some CtxBackground)] \<and>
   call [DeferGuard (Some ''err'') [WithContext (Some CtxBackground)], Panic (Lit (VStr ''boom''))]
       (init_state\<lparr>globals := quiet_hooks\<rparr>) =
     (Normal, init_state\<lparr>globals := quiet_hooks,
        trace := [EvOnGuard (VStr ''boom''), EvOnGuardWithContext CtxBackground (VStr ''boom'')],
        store := (store init_state)(''err'' := VErr (ErrString ''panic: boom''))\<rparr>)"
proof -
  let ?s = "init_state\<lparr>globals := quiet_hooks\<rparr>"
  have c: "call [Panic (Lit (VStr ''boom''))] ?s = (Panicked (VStr ''boom''), ?s)"
    by (simp add: call_def init_state_def outcome_of_def gopanic_def)
  have n: "NilOption \<notin> set [WithContext (Some CtxBackground)]"
    by (simp add: WithContext_def)
  have ctx: "spec_ctx [WithContext (Some CtxBackground)] = CtxBackground"
    by (simp add: spec_ctx_def WithContext_def empty_options_def)
  show ?thesis
    using hooks_called_in_order [OF c n, of "\<lambda>_. None" "\<lambda>_ _. None" "''err''"] c n ctx
    by (simp add: quiet_hooks_def spec_error_def init_state_def)
qed

text \<open>
  C8: a hook that panics is not re-absorbed: the guarded function panics with the
  hook's payload, \<open>OnGuardWithContext\<close> is not called and nothing is stored.
\<close>

theorem hook_panic_propagates:
  assumes "call body s = (Panicked v, s')" and "NilOption \<notin> set os"
    and "OnGuard (globals s') = Some f" and "f v = Some q" and "v \<noteq> VNil"
  shows "call (DeferGuard p os # body) s =
           (Panicked (gopanic (panicnil s') q), s'\<lparr>trace := trace s' @ [EvOnGuard v]\<rparr>)"
  using assms by (simp add: call_Guard_barrier notify_def)

theorem hook_panic_propagates_witness:
  "call [Panic (Lit (VStr ''boom''))] (init_state\<lparr>globals := failing_hook\<rparr>) =
     (Panicked (VStr ''boom''), init_state\<lparr>globals := failing_hook\<rparr>) \<and>
   NilOption \<notin> set ([] :: Option list) \<and>
   call [DeferGuard (Some ''err'') [], Panic (Lit (VStr ''boom''))] (init_state\<lparr>globals := failing_hook\<rparr>) =
     (Panicked (VStr ''hook failed''),
      init_state\<lparr>globals := failing_hook, trace := [EvOnGuard (VStr ''boom'')]\<rparr>)"
proof -
  let ?s = "init_state\<lparr>globals := failing_hook\<rparr>"
  have c: "call [Panic (Lit (VStr ''boom''))] ?s = (Panicked (VStr ''boom''), ?s)"
    by (simp add: call_def init_state_def outcome_of_def gopanic_def)
  show ?thesis
    using hook_panic_propagates [OF c, of "[]" "\<lambda>_. Some (VStr ''hook failed'')" "VStr ''hook failed''"
        "Some ''err''"] c
    by (simp add: failing_hook_def gopanic_def init_state_def)
qed

text \<open>
  C9: a nil \<open>Option\<close> makes \<open>Guard\<close> panic with a nil dereference before it calls
  \<open>recover\<close>, whether or not the body panicked; the body's panic is replaced.
\<close>

theorem nil_option_panics:
  assumes "call body s = (out, s')" and "out \<noteq> Rejected" and "NilOption \<in> set os"
  shows "call (DeferGuard p os # body) s = (Panicked (VErr nil_deref), s')"
  using assms by (cases out) (simp_all add: call_Guard_barrier)

theorem nil_option_panics_witness:
  "call [Panic (Lit (VStr ''boom''))] init_state = (Panicked (VStr ''boom''), init_state) \<and>
   Panicked (VStr ''boom'') \<noteq> Rejected \<and> NilOption \<in> set [NilOption] \<and>
   call [DeferGuard (Some ''err'') [NilOption], Panic (Lit (VStr ''boom''))] init_state =
     (Panicked (VErr nil_deref), init_state)"
proof -
  have c: "call [Panic (Lit (VStr ''boom''))] init_state = (Panicked (VStr ''boom''), init_state)"
    by (simp add: call_def init_state_def outcome_of_def gopanic_def)
  show ?thesis using nil_option_panics [OF c, of "[NilOption]" "Some ''err''"] c by simp
qed

text \<open>
  C10: with a nil \<open>err\<close> pointer and unset hooks, \<open>Guard\<close> recovers the panic but
  then panics with a nil dereference when it stores the error.
\<close>

theorem nil_pointer_panics:
  assumes "call body s = (Panicked v, s')" and "NilOption \<notin> set os" and "hooks_unset s'"
    and "v \<noteq> VNil"
  shows "call (DeferGuard None os # body) s = (Panicked (VErr nil_deref), s')"
  using assms by (simp add: call_Guard_barrier)

theorem nil_pointer_panics_witness:
  "call [Panic (Lit (VStr ''boom''))] init_state = (Panicked (VStr ''boom''), init_state) \<and>
   NilOption \<notin> set ([] :: Option list) \<and> hooks_unset init_state \<and>
   call [DeferGuard None [], Panic (Lit (VStr ''boom''))] init_state = (Panicked (VErr nil_deref), init_state)"
proof -
  have c: "call [Panic (Lit (VStr ''boom''))] init_state = (Panicked (VStr ''boom''), init_state)"
    by (simp add: call_def init_state_def outcome_of_def gopanic_def)
  have h: "hooks_unset init_state" by (simp add: hooks_unset_def init_state_def no_hooks_def)
  show ?thesis using nil_pointer_panics [OF c _ h, of "[]"] c h by simp
qed

text \<open>
  C11: \<open>Guard\<close> called from a deferred closure (\<open>defer func() { Guard(&err) }()\<close>)
  recovers nothing, because \<open>recover\<close> is not called directly by the deferred
  function: the guarded function behaves as its body, and a panic propagates.
\<close>

theorem closure_guard_does_not_recover:
  assumes "NilOption \<notin> set os"
  shows "call (DeferGuardInClosure p os # body) s = call body s"
proof -
  obtain out s' where r: "call body s = (out, s')" by (cases "call body s")
  have "call (DeferGuardInClosure p os # body) s = defer_after (DGuard p os False) (call body s)"
    by (rule call_defer_stmt) simp
  moreover have "defer_after (DGuard p os False) (out, s') = (out, s')"
  proof (cases "out = Rejected")
    case True
    then show ?thesis by simp
  next
    case False
    with r have "panicking s' = None" by (rule call_panicking_None)
    with False assms show ?thesis by (simp add: defer_after_indirect)
  qed
  ultimately show ?thesis using r by simp
qed

theorem closure_guard_does_not_recover_witness:
  "NilOption \<notin> set ([] :: Option list) \<and>
   call [DeferGuardInClosure (Some ''err'') [], Panic (Lit (VStr ''boom''))] init_state =
   call [Panic (Lit (VStr ''boom''))] init_state"
  using closure_guard_does_not_recover [of "[]" "Some ''err''" "[Panic (Lit (VStr ''boom''))]" init_state]
  by simp

text \<open>
  C12: deferred calls run last-in first-out: with two guards, the one deferred last
  absorbs the panic and the one deferred first finds nothing to recover, so only
  the second error variable is written.
\<close>

theorem innermost_guard_absorbs:
  assumes "hooks_unset s"
  shows "call [DeferGuard (Some a) [], DeferGuard (Some b) [], Panic (Lit (VErr e))] s =
           (Normal, s\<lparr>store := (store s)(b := VErr e), panicking := None\<rparr>)"
  using assms by (simp add: call_Guard_barrier call_Panic_only spec_error_def)

theorem innermost_guard_absorbs_witness:
  "hooks_unset init_state \<and>
   call [DeferGuard (Some ''e1'') [], DeferGuard (Some ''e2'') [], Panic (Lit (VErr (ErrString ''x'')))]
     init_state =
   (Normal, init_state\<lparr>store := (store init_state)(''e2'' := VErr (ErrString ''x'')), panicking := None\<rparr>)"
  using innermost_guard_absorbs [of init_state "''e1''" "''e2''" "ErrString ''x''"]
  by (simp add: hooks_unset_def init_state_def no_hooks_def)

text \<open>
  C13: a panic raised in a called function that has no guard of its own crosses the
  call and is absorbed by the nearest enclosing guard.
\<close>

theorem nearest_barrier_across_calls:
  assumes "call inner s = (Panicked v, s')" and "hooks_unset s'" and "v \<noteq> VNil"
  shows "call [DeferGuard (Some x) [], Call inner] s =
           (Normal, s'\<lparr>store := (store s')(x := VErr (spec_error v))\<rparr>)"
  using assms by (simp add: call_Guard_barrier call_Call_only)

theorem nearest_barrier_across_calls_witness:
  "call [Panic (Lit (VInt 7))] init_state = (Panicked (VInt 7), init_state) \<and>
   hooks_unset init_state \<and>
   call [DeferGuard (Some ''err'') [], Call [Panic (Lit (VInt 7))]] init_state =
     (Normal, init_state\<lparr>store := (store init_state)(''err'' := VErr (spec_error (VInt 7)))\<rparr>)"
proof -
  have c: "call [Panic (Lit (VInt 7))] init_state = (Panicked (VInt 7), init_state)"
    by (simp add: call_def init_state_def outcome_of_def gopanic_def)
  have h: "hooks_unset init_state" by (simp add: hooks_unset_def init_state_def no_hooks_def)
  show ?thesis using nearest_barrier_across_calls [OF c h, of "''err''"] c h by simp
qed

text \<open>
  C16: \<open>panic(nil)\<close> inside a guarded function (Go 1.21 and later, without
  \<open>GODEBUG=panicnil=1\<close>) is absorbed as a
  \<open>*runtime.PanicNilError\<close>, an error: the guard stores it as is, with the message
  \<open>"panic called with nil argument"\<close>.
\<close>

theorem guarded_panic_nil_recovered:
  assumes "hooks_unset s" and "\<not> panicnil s"
  shows "call [DeferGuard (Some x) [], Panic (Lit VNil)] s =
           (Normal, s\<lparr>store := (store s)(x := VErr ErrPanicNil), panicking := None\<rparr>)
         \<and> error_msg ErrPanicNil = ''panic called with nil argument''"
  using assms by (simp add: call_Guard_barrier call_Panic_only spec_error_def)

theorem guarded_panic_nil_recovered_witness:
  "hooks_unset init_state \<and> \<not> panicnil init_state \<and>
   call [DeferGuard (Some ''err'') [], Panic (Lit VNil)] init_state =
     (Normal, init_state\<lparr>store := (store init_state)(''err'' := VErr ErrPanicNil), panicking := None\<rparr>)"
  using guarded_panic_nil_recovered [of init_state "''err''"]
  by (simp add: hooks_unset_def init_state_def no_hooks_def)

text \<open>
  C17: the barrier absorbs every panic: with valid options, a non-nil \<open>err\<close>
  pointer and hooks that return, a guarded function returns normally whatever its
  body did.
\<close>

theorem guard_absorbs_every_panic:
  assumes "call body s = (out, s')" and "out \<noteq> Rejected" and "NilOption \<notin> set os"
    and "hooks_return (globals s')"
  shows "fst (call (DeferGuard (Some x) os # body) s) = Normal"
proof (cases out)
  case (Panicked v)
  obtain evs where "notify (globals s') (spec_ctx os) v = (evs, None)"
    using notify_hooks_return [OF assms(4), of "spec_ctx os" v]
    by (cases "notify (globals s') (spec_ctx os) v") simp
  with assms(1,3) Panicked show ?thesis by (simp add: call_Guard_barrier)
qed (use assms in \<open>simp_all add: call_Guard_barrier\<close>)

theorem guard_absorbs_every_panic_witness:
  "call [Panic (Lit (VStr ''boom''))] (init_state\<lparr>globals := quiet_hooks\<rparr>) =
     (Panicked (VStr ''boom''), init_state\<lparr>globals := quiet_hooks\<rparr>) \<and>
   Panicked (VStr ''boom'') \<noteq> Rejected \<and> NilOption \<notin> set ([] :: Option list) \<and>
   hooks_return (globals (init_state\<lparr>globals := quiet_hooks\<rparr>)) \<and>
   fst (call [DeferGuard (Some ''err'') [], Panic (Lit (VStr ''boom''))] (init_state\<lparr>globals := quiet_hooks\<rparr>))
     = Normal"
proof -
  let ?s = "init_state\<lparr>globals := quiet_hooks\<rparr>"
  have c: "call [Panic (Lit (VStr ''boom''))] ?s = (Panicked (VStr ''boom''), ?s)"
    by (simp add: call_def init_state_def outcome_of_def gopanic_def)
  have h: "hooks_return (globals ?s)"
    by (simp add: hooks_return_def quiet_hooks_def)
  show ?thesis using guard_absorbs_every_panic [OF c _ _ h, of "[]" "''err''"] c h by simp
qed

text \<open>
  C18: a deferred \<open>Guard\<close> writes no variable but the one \<open>err\<close> points to, and never
  changes the hook variables: those keep the values the body left.
\<close>

theorem Guard_frame:
  "globals (snd (call (DeferGuard p os # body) s)) = globals (snd (call body s)) \<and>
   (\<forall>y. p \<noteq> Some y \<longrightarrow> store (snd (call (DeferGuard p os # body) s)) y = store (snd (call body s)) y)"
  using barrier_frame [OF call_Guard_barrier [symmetric]] by simp

theorem Guard_frame_witness:
  "globals (snd (call [DeferGuard (Some ''err'') [], Assign ''x'' (Lit (VInt 1)), Panic (Lit VNil)] init_state)) =
     globals (snd (call [Assign ''x'' (Lit (VInt 1)), Panic (Lit VNil)] init_state)) \<and>
   Some ''err'' \<noteq> Some ''x'' \<and>
   store (snd (call [DeferGuard (Some ''err'') [], Assign ''x'' (Lit (VInt 1)), Panic (Lit VNil)] init_state)) ''x'' =
     store (snd (call [Assign ''x'' (Lit (VInt 1)), Panic (Lit VNil)] init_state)) ''x''"
  using Guard_frame [of "Some ''err''" "[]" "[Assign ''x'' (Lit (VInt 1)), Panic (Lit VNil)]" init_state]
  by simp

text \<open>
  C20: under \<open>GODEBUG=panicnil=1\<close> (the behaviour of Go before 1.21),
  \<open>panic(nil)\<close> in a guarded function is swallowed: \<open>recover()\<close> stops the panic
  and returns \<open>nil\<close>, the test \<open>r != nil\<close> of \<open>Guard\<close> fails, and the function
  returns normally with nothing stored, no hook called and the \<open>err\<close> pointer never
  dereferenced, even when it is nil.
\<close>

theorem panicnil_swallows_nil_panic:
  assumes "panicnil s" and "NilOption \<notin> set os"
  shows "call [DeferGuard p os, Panic (Lit VNil)] s = (Normal, s\<lparr>panicking := None\<rparr>)"
  using assms by (simp add: call_Guard_barrier call_Panic_only)

theorem panicnil_swallows_nil_panic_witness:
  "panicnil (init_state\<lparr>panicnil := True\<rparr>) \<and> NilOption \<notin> set ([] :: Option list) \<and>
   call [DeferGuard None [], Panic (Lit VNil)] (init_state\<lparr>panicnil := True\<rparr>) =
     (Normal, init_state\<lparr>panicnil := True, panicking := None\<rparr>)"
  using panicnil_swallows_nil_panic [of "init_state\<lparr>panicnil := True\<rparr>" "[]" None]
  by simp

end
